theory Spec2Isabelle
  imports Complex_Main "HOL-Library.Word"
begin

unbundle bit_operations_syntax

section \<open>Adaptive quality controller (AdaptiveQuality.ts)\<close>

text \<open>
  JavaScript numbers are modelled as reals throughout: the arithmetic of the source is read
  as exact arithmetic on finite values.  The state of the class is a record; \<open>adjust\<close>
  returns the updated object (its return value is the new \<open>currentScale\<close>).
\<close>

record AdaptiveQuality =
  targetFrameTime :: real
  currentScale :: real

definition minScale :: real where
  "minScale = 0.5"

definition maxScale :: real where
  "maxScale = 1.0"

definition newAdaptiveQuality :: "real \<Rightarrow> AdaptiveQuality" where
  "newAdaptiveQuality targetFPS =
     \<lparr>targetFrameTime = 1000 / targetFPS, currentScale = 1.0\<rparr>"

definition adjust :: "AdaptiveQuality \<Rightarrow> real \<Rightarrow> AdaptiveQuality" where
  "adjust q lastFrameTime =
     (if lastFrameTime > targetFrameTime q * 1.2
      then q\<lparr>currentScale := max minScale (currentScale q - 0.05)\<rparr>
      else if lastFrameTime < targetFrameTime q * 0.8
      then q\<lparr>currentScale := min maxScale (currentScale q + 0.02)\<rparr>
      else q)"

text \<open>The frame loop calls \<open>adjust\<close> once per frame; a run of frames is a fold.\<close>

fun adjustAll :: "AdaptiveQuality \<Rightarrow> real list \<Rightarrow> AdaptiveQuality" where
  "adjustAll q [] = q"
| "adjustAll q (t # ts) = adjustAll (adjust q t) ts"

section \<open>Numbers that may be infinite\<close>

text \<open>
  The source initialises a running minimum with \<open>Infinity\<close> and returns \<open>Infinity\<close> from the
  signed-distance evaluator for a geometry it does not know.  Such values are modelled by a
  type of their own: a finite real, one of the two infinities, or NaN.  Comparison with NaN is
  false, as in JavaScript.
\<close>

datatype number = Fin real | PInf | NInf | NaN

fun num_less :: "number \<Rightarrow> number \<Rightarrow> bool" where
  "num_less (Fin a) (Fin b) = (a < b)"
| "num_less (Fin a) PInf = True"
| "num_less NInf (Fin b) = True"
| "num_less NInf PInf = True"
| "num_less _ _ = False"

fun num_times :: "number \<Rightarrow> real \<Rightarrow> number" where
  "num_times (Fin a) s = Fin (a * s)"
| "num_times PInf s = (if 0 < s then PInf else if s < 0 then NInf else NaN)"
| "num_times NInf s = (if 0 < s then NInf else if s < 0 then PInf else NaN)"
| "num_times NaN s = NaN"

fun num_plus :: "real \<Rightarrow> number \<Rightarrow> number" where
  "num_plus t (Fin d) = Fin (t + d)"
| "num_plus t PInf = PInf"
| "num_plus t NInf = NInf"
| "num_plus t NaN = NaN"

section \<open>Glyph database (GlyphDB.ts)\<close>

datatype GlyphStyle = Dense | Light | Round | Angular | Line | Noise | Block | Symbolic

text \<open>
  \<open>RawGlyph\<close> is the parsed row (\<open>Omit<GlyphRecord, normalized...>\<close> in the constructor);
  \<open>GlyphRecord\<close> extends it with the three normalized features.
\<close>

record RawGlyph =
  codePoint :: int
  char :: string
  coverage :: real
  roundness :: real
  complexity :: real
  symmetryH :: real
  symmetryV :: real
  connectedComponents :: real
  aspectRatio :: real
  strokeWidthMedian :: real
  strokeWidthVariance :: real
  endpointCount :: real
  junctionCount :: real
  eulerNumber :: real

record GlyphRecord = RawGlyph +
  normalizedCoverage :: real
  normalizedComplexity :: real
  normalizedConnectedComponents :: real

record GlyphQueryParams =
  targetCoverage :: real
  targetRoundness :: "real option"
  targetComplexity :: "real option"
  glyphStyle :: "GlyphStyle option"

text \<open>
  Failures.  \<open>TypeError\<close> is the exception JavaScript throws on reading a property of
  \<open>undefined\<close>.  \<open>NonFinite\<close> is not an exception of the source: it marks the places
  where an infinity, NaN or \<open>undefined\<close> would flow into a value the model keeps as a
  real.
\<close>

datatype error = TypeError | NonFinite

text \<open>
  \<open>normalize\<close>: \<open>Math.min()\<close> and \<open>Math.max()\<close> of no arguments are the infinities, the
  range is then not 0 and mapping over the empty array gives the empty array.
\<close>

definition normalize_values :: "real list \<Rightarrow> real list" where
  "normalize_values values =
     (if values = [] then []
      else let mn = Min (set values); mx = Max (set values); range = mx - mn
           in if range = 0 then map (\<lambda>v. 0) values
              else map (\<lambda>v. (v - mn) / range) values)"

text \<open>
  The constructor after the rows are parsed: normalize the three features over the whole
  set, attach them by index, sort by normalized coverage (\<open>Array.prototype.sort\<close> is stable,
  as \<open>sort_key\<close> is).
\<close>

definition withNormalized :: "real list \<Rightarrow> real list \<Rightarrow> real list \<Rightarrow> nat \<Rightarrow> RawGlyph \<Rightarrow> GlyphRecord" where
  "withNormalized normCoverages normComplexities normComponents i g =
     RawGlyph.extend g
       \<lparr>normalizedCoverage = normCoverages ! i,
        normalizedComplexity = normComplexities ! i,
        normalizedConnectedComponents = normComponents ! i\<rparr>"

definition loadGlyphs :: "RawGlyph list \<Rightarrow> GlyphRecord list" where
  "loadGlyphs parsed =
     (let coverages = map coverage parsed;
          complexities = map complexity parsed;
          components = map connectedComponents parsed;
          normCoverages = normalize_values coverages;
          normComplexities = normalize_values complexities;
          normComponents = normalize_values components;
          glyphs = map (\<lambda>(i, g). withNormalized normCoverages normComplexities normComponents i g)
                       (enumerate 0 parsed)
      in sort_key normalizedCoverage glyphs)"

text \<open>The binary search of \<open>queryBest\<close>: first index whose coverage is not below \<open>lo\<close>.\<close>

function bsearch :: "GlyphRecord list \<Rightarrow> real \<Rightarrow> nat \<Rightarrow> nat \<Rightarrow> nat" where
  "bsearch glyphs lo left right =
     (if left < right
      then (let mid = (left + right) div 2
            in if normalizedCoverage (glyphs ! mid) < lo
               then bsearch glyphs lo (mid + 1) right
               else bsearch glyphs lo left mid)
      else left)"
  by pat_completeness auto
termination
  by (relation "measure (\<lambda>(glyphs, lo, left, right). right - left)") auto

text \<open>The forward scan: \<open>while (endIdx < length && glyphs[endIdx].normalizedCoverage <= hi)\<close>.\<close>

function scanEnd :: "GlyphRecord list \<Rightarrow> real \<Rightarrow> nat \<Rightarrow> nat" where
  "scanEnd glyphs hi endIdx =
     (if endIdx < length glyphs \<and> normalizedCoverage (glyphs ! endIdx) \<le> hi
      then scanEnd glyphs hi (endIdx + 1)
      else endIdx)"
  by pat_completeness auto
termination
  by (relation "measure (\<lambda>(glyphs, hi, endIdx). length glyphs - endIdx)") auto

declare bsearch.simps [simp del] scanEnd.simps [simp del]

text \<open>The four terms of the score, in the order the loop body adds them.\<close>

definition coverageTerm :: "GlyphQueryParams \<Rightarrow> GlyphRecord \<Rightarrow> real" where
  "coverageTerm p glyph = 4.0 * \<bar>normalizedCoverage glyph - targetCoverage p\<bar>"

definition roundnessTerm :: "GlyphQueryParams \<Rightarrow> GlyphRecord \<Rightarrow> real" where
  "roundnessTerm p glyph =
     (case targetRoundness p of None \<Rightarrow> 0 | Some r \<Rightarrow> 1.0 * \<bar>roundness glyph - r\<bar>)"

definition complexityTerm :: "GlyphQueryParams \<Rightarrow> GlyphRecord \<Rightarrow> real" where
  "complexityTerm p glyph =
     (case targetComplexity p of None \<Rightarrow> 0 | Some c \<Rightarrow> 1.0 * \<bar>normalizedComplexity glyph - c\<bar>)"

definition styleBias :: "GlyphQueryParams \<Rightarrow> GlyphRecord \<Rightarrow> real" where
  "styleBias p glyph =
     (case glyphStyle p of
        None \<Rightarrow> 0
      | Some Dense \<Rightarrow> 1.5 * (1 - normalizedCoverage glyph)
      | Some Light \<Rightarrow> 1.5 * normalizedCoverage glyph
      | Some Round \<Rightarrow> 1.5 * (1 - roundness glyph)
      | Some Angular \<Rightarrow> 1.5 * roundness glyph
      | Some Line \<Rightarrow> 1.5 * normalizedConnectedComponents glyph
      | Some Noise \<Rightarrow> 1.5 * (1 - normalizedComplexity glyph)
      | Some Block \<Rightarrow> 1.5 * (1 - symmetryH glyph)
      | Some Symbolic \<Rightarrow> 0)"

definition score :: "GlyphQueryParams \<Rightarrow> GlyphRecord \<Rightarrow> real" where
  "score p glyph = coverageTerm p glyph + roundnessTerm p glyph + complexityTerm p glyph + styleBias p glyph"

text \<open>One turn of the scoring loop on the pair \<open>(bestScore, best)\<close>.\<close>

definition scoreStep :: "GlyphQueryParams \<Rightarrow> GlyphRecord \<Rightarrow> number \<times> GlyphRecord \<Rightarrow> number \<times> GlyphRecord" where
  "scoreStep p glyph acc =
     (if num_less (Fin (score p glyph)) (fst acc) then (Fin (score p glyph), glyph) else acc)"

definition slice :: "'a list \<Rightarrow> nat \<Rightarrow> nat \<Rightarrow> 'a list" where
  "slice xs a b = take (b - a) (drop a xs)"

text \<open>
  \<open>queryBest\<close>.  On an empty array the fallback candidate is \<open>glyphs[-1]\<close>, which is
  \<open>undefined\<close>, and reading its coverage throws a \<open>TypeError\<close>.
\<close>

definition queryBest :: "GlyphRecord list \<Rightarrow> GlyphQueryParams \<Rightarrow> error + GlyphRecord" where
  "queryBest glyphs p =
     (if glyphs = [] then Inl TypeError
      else let lo = targetCoverage p - 0.1;
               hi = targetCoverage p + 0.1;
               left = bsearch glyphs lo 0 (length glyphs - 1);
               startIdx = left;
               endIdx = scanEnd glyphs hi startIdx;
               candidates = (if endIdx > startIdx then slice glyphs startIdx endIdx
                             else [glyphs ! (min (max left 0) (length glyphs - 1))])
           in Inr (snd (fold (scoreStep p) candidates (PInf, hd candidates))))"

section \<open>Scene types (core/types.ts) and vector helpers (core/vec3.ts)\<close>

text \<open>
  The fields \<open>x, y, z\<close> of \<open>Vec3\<close> and \<open>r, g, b\<close> of \<open>Color\<close> are written \<open>vx, vy, vz\<close>
  and \<open>chR, chG, chB\<close>; the field \<open>id\<close> of an entity is written \<open>entityId\<close>.
\<close>

record Vec3 =
  vx :: real
  vy :: real
  vz :: real

record Color =
  chR :: real
  chG :: real
  chB :: real

datatype MotionType = MFlicker | MFlow | MPulse | MStatic

record MotionBehavior =
  motionType :: MotionType
  speed :: real

record Material =
  baseColor :: Color
  brightness :: real
  emissive :: "real option"
  roughness :: real
  reflectivity :: real
  transparency :: "real option"
  glyphStyle :: "GlyphStyle option"
  motionBehavior :: "MotionBehavior option"

record Transform =
  position :: Vec3
  rotation :: Vec3
  scale :: Vec3

datatype Geometry =
    Sphere real
  | Box Vec3
  | Plane Vec3
  | Cylinder real real
  | SignedDistanceField string "(string \<times> real) list"

record Entity =
  entityId :: string
  transform :: Transform
  geometry :: Geometry
  material :: Material
  velocity :: "Vec3 option"
  angularVelocity :: "Vec3 option"

definition vec3 :: "real \<Rightarrow> real \<Rightarrow> real \<Rightarrow> Vec3" where
  "vec3 a b c = \<lparr>vx = a, vy = b, vz = c\<rparr>"

definition add_v :: "Vec3 \<Rightarrow> Vec3 \<Rightarrow> Vec3" where
  "add_v a b = \<lparr>vx = vx a + vx b, vy = vy a + vy b, vz = vz a + vz b\<rparr>"

definition sub_v :: "Vec3 \<Rightarrow> Vec3 \<Rightarrow> Vec3" where
  "sub_v a b = \<lparr>vx = vx a - vx b, vy = vy a - vy b, vz = vz a - vz b\<rparr>"

definition mul_v :: "Vec3 \<Rightarrow> real \<Rightarrow> Vec3" where
  "mul_v v scalar = \<lparr>vx = vx v * scalar, vy = vy v * scalar, vz = vz v * scalar\<rparr>"

definition dot_v :: "Vec3 \<Rightarrow> Vec3 \<Rightarrow> real" where
  "dot_v a b = vx a * vx b + vy a * vy b + vz a * vz b"

definition length_v :: "Vec3 \<Rightarrow> real" where
  "length_v v = sqrt (vx v * vx v + vy v * vy v + vz v * vz v)"

definition normalize_v :: "Vec3 \<Rightarrow> Vec3" where
  "normalize_v v =
     (let len = length_v v
      in if len = 0 then \<lparr>vx = 0, vy = 0, vz = 0\<rparr>
         else \<lparr>vx = vx v / len, vy = vy v / len, vz = vz v / len\<rparr>)"

section \<open>Signed distance functions (sdf.ts)\<close>

definition sdSphere :: "Vec3 \<Rightarrow> real \<Rightarrow> real" where
  "sdSphere p radius = length_v p - radius"

definition sdBox :: "Vec3 \<Rightarrow> Vec3 \<Rightarrow> real" where
  "sdBox p sz =
     (let d = \<lparr>vx = \<bar>vx p\<bar> - vx sz / 2, vy = \<bar>vy p\<bar> - vy sz / 2, vz = \<bar>vz p\<bar> - vz sz / 2\<rparr>;
          outside = length_v \<lparr>vx = max (vx d) 0, vy = max (vy d) 0, vz = max (vz d) 0\<rparr>;
          inside = min (max (vx d) (max (vy d) (vz d))) 0
      in outside + inside)"

definition sdPlane :: "Vec3 \<Rightarrow> Vec3 \<Rightarrow> real" where
  "sdPlane p normal = dot_v p (normalize_v normal)"

definition sdCylinder :: "Vec3 \<Rightarrow> real \<Rightarrow> real \<Rightarrow> real" where
  "sdCylinder p radius height =
     (let d2 = sqrt (vx p * vx p + vz p * vz p) - radius;
          d1 = \<bar>vy p\<bar> - height / 2;
          outside = length_v \<lparr>vx = max d2 0, vy = max d1 0, vz = 0\<rparr>;
          inside = min (max d2 d1) 0
      in outside + inside)"

fun evaluateSDF :: "Vec3 \<Rightarrow> Geometry \<Rightarrow> number" where
  "evaluateSDF p (Sphere radius) = Fin (sdSphere p radius)"
| "evaluateSDF p (Box sz) = Fin (sdBox p sz)"
| "evaluateSDF p (Plane normal) = Fin (sdPlane p normal)"
| "evaluateSDF p (Cylinder radius height) = Fin (sdCylinder p radius height)"
| "evaluateSDF p (SignedDistanceField functionName params) = PInf"

section \<open>Spatial grid (SpatialGrid.ts)\<close>

record AABB =
  min_v :: Vec3
  max_v :: Vec3

fun computeAABB :: "Entity \<Rightarrow> AABB" where
  "computeAABB entity =
     (let pos = position (transform entity); scl = scale (transform entity)
      in case geometry entity of
           Sphere radius \<Rightarrow>
             (let r = radius * max (max (vx scl) (vy scl)) (vz scl)
              in \<lparr>min_v = sub_v pos (vec3 r r r), max_v = add_v pos (vec3 r r r)\<rparr>)
         | Box sz \<Rightarrow>
             (let half = vec3 (vx sz / 2 * vx scl) (vy sz / 2 * vy scl) (vz sz / 2 * vz scl)
              in \<lparr>min_v = sub_v pos half, max_v = add_v pos half\<rparr>)
         | Cylinder radius height \<Rightarrow>
             (let r = radius * max (vx scl) (vz scl); h = height / 2 * vy scl
              in \<lparr>min_v = sub_v pos (vec3 r h r), max_v = add_v pos (vec3 r h r)\<rparr>)
         | _ \<Rightarrow> \<lparr>min_v = vec3 (-1000000000) (-1000000000) (-1000000000),
                 max_v = vec3 1000000000 1000000000 1000000000\<rparr>)"

text \<open>
  \<open>hashCell\<close>: the three products are exact for cell coordinates below \<open>2^26\<close> in
  magnitude; \<open>^\<close> takes them modulo \<open>2^32\<close> and \<open>>>> 0\<close> reads the result as unsigned.
\<close>

definition hashCell :: "int \<Rightarrow> int \<Rightarrow> int \<Rightarrow> 32 word" where
  "hashCell cx cy cz =
     word_of_int (cx * 73856093) XOR word_of_int (cy * 19349663) XOR word_of_int (cz * 83492791)"

text \<open>\<open>INFINITE_TYPES.has(entity.geometry.type)\<close>: the types \<open>plane\<close> and \<open>sdf\<close>.\<close>

fun infiniteType :: "Geometry \<Rightarrow> bool" where
  "infiniteType (Plane normal) = True"
| "infiniteType (SignedDistanceField functionName params) = True"
| "infiniteType _ = False"

record SpatialGrid =
  cellSize :: real
  cells :: "32 word \<rightharpoonup> nat list"
  globalIndices :: "nat list"
  entities :: "Entity list"

text \<open>The body of the innermost loop of \<open>rebuild\<close> for entity \<open>i\<close> and one cell.\<close>

definition insertCell :: "nat \<Rightarrow> int \<times> int \<times> int \<Rightarrow> (32 word \<rightharpoonup> nat list) \<Rightarrow> (32 word \<rightharpoonup> nat list)" where
  "insertCell i c m =
     (case c of (cx, cy, cz) \<Rightarrow>
        let h = hashCell cx cy cz
        in (case m h of
              None \<Rightarrow> m(h \<mapsto> [i])
            | Some arr \<Rightarrow> if i \<in> set arr then m else m(h \<mapsto> arr @ [i])))"

text \<open>The cells an entity's box overlaps, in the order of the three nested loops.\<close>

definition overlappedCells :: "real \<Rightarrow> Entity \<Rightarrow> (int \<times> int \<times> int) list" where
  "overlappedCells cs entity =
     (let aabb = computeAABB entity;
          minCX = \<lfloor>vx (min_v aabb) / cs\<rfloor>;
          minCY = \<lfloor>vy (min_v aabb) / cs\<rfloor>;
          minCZ = \<lfloor>vz (min_v aabb) / cs\<rfloor>;
          maxCX = \<lfloor>vx (max_v aabb) / cs\<rfloor>;
          maxCY = \<lfloor>vy (max_v aabb) / cs\<rfloor>;
          maxCZ = \<lfloor>vz (max_v aabb) / cs\<rfloor>
      in concat (map (\<lambda>cx. concat (map (\<lambda>cy. map (\<lambda>cz. (cx, cy, cz)) [minCZ..maxCZ])
                                         [minCY..maxCY]))
                     [minCX..maxCX]))"

text \<open>One turn of the outer loop of \<open>rebuild\<close>, on the pair (cells, globalIndices).\<close>

definition rebuildStep ::
  "real \<Rightarrow> nat \<times> Entity \<Rightarrow> (32 word \<rightharpoonup> nat list) \<times> nat list \<Rightarrow> (32 word \<rightharpoonup> nat list) \<times> nat list" where
  "rebuildStep cs ie acc =
     (case ie of (i, entity) \<Rightarrow>
        if infiniteType (geometry entity) then (fst acc, snd acc @ [i])
        else (fold (insertCell i) (overlappedCells cs entity) (fst acc), snd acc))"

text \<open>
  \<open>rebuild\<close> clears both structures and fills them again.  With cell size 0 the cell
  bounds are infinities or NaN (the loops then never end, or never run); that case is
  outside the model.
\<close>

definition rebuild :: "SpatialGrid \<Rightarrow> error + SpatialGrid" where
  "rebuild g =
     (if cellSize g = 0 then Inl NonFinite
      else let acc = fold (rebuildStep (cellSize g)) (enumerate 0 (entities g)) (Map.empty, [])
           in Inr (g\<lparr>cells := fst acc, globalIndices := snd acc\<rparr>))"

definition newSpatialGrid :: "Entity list \<Rightarrow> real \<Rightarrow> error + SpatialGrid" where
  "newSpatialGrid es cs =
     rebuild \<lparr>cellSize = cs, cells = Map.empty, globalIndices = [], entities = es\<rparr>"

definition updateEntities :: "SpatialGrid \<Rightarrow> Entity list \<Rightarrow> error + SpatialGrid" where
  "updateEntities g es = rebuild (g\<lparr>entities := es\<rparr>)"

definition getCandidates :: "SpatialGrid \<Rightarrow> Vec3 \<Rightarrow> nat list" where
  "getCandidates g point =
     (let cs = cellSize g;
          cx = \<lfloor>vx point / cs\<rfloor>;
          cy = \<lfloor>vy point / cs\<rfloor>;
          cz = \<lfloor>vz point / cs\<rfloor>;
          h = hashCell cx cy cz;
          cell = (case cells g h of None \<Rightarrow> [] | Some arr \<Rightarrow> arr)
      in globalIndices g @ cell)"

section \<open>World sampler (World.ts)\<close>

record SampleResult =
  distance :: number
  material :: Material
  entityId :: string
  entityIndex :: int

definition worldToLocal :: "Vec3 \<Rightarrow> Transform \<Rightarrow> Vec3" where
  "worldToLocal point tr =
     (let translated = sub_v point (position tr);
          rotZ = \<lparr>vx = vx translated * cos (- vz (rotation tr)) - vy translated * sin (- vz (rotation tr)),
                  vy = vx translated * sin (- vz (rotation tr)) + vy translated * cos (- vz (rotation tr)),
                  vz = vz translated\<rparr>;
          rotX = \<lparr>vx = vx rotZ,
                  vy = vy rotZ * cos (- vx (rotation tr)) - vz rotZ * sin (- vx (rotation tr)),
                  vz = vy rotZ * sin (- vx (rotation tr)) + vz rotZ * cos (- vx (rotation tr))\<rparr>;
          rotY = \<lparr>vx = vx rotX * cos (- vy (rotation tr)) + vz rotX * sin (- vy (rotation tr)),
                  vy = vy rotX,
                  vz = - vx rotX * sin (- vy (rotation tr)) + vz rotX * cos (- vy (rotation tr))\<rparr>
      in \<lparr>vx = vx rotY / vx (scale tr),
          vy = vy rotY / vy (scale tr),
          vz = vz rotY / vz (scale tr)\<rparr>)"

definition EMPTY_MATERIAL :: Material where
  "EMPTY_MATERIAL =
     \<lparr>baseColor = \<lparr>chR = 0, chG = 0, chB = 0\<rparr>, brightness = 0, emissive = None,
      roughness = 0, reflectivity = 0, transparency = None, glyphStyle = None,
      motionBehavior = None\<rparr>"

text \<open>
  \<open>World\<close> keeps the entity array and the grid built from it (cell size 2.0, the default
  of the grid's constructor).
\<close>

record World =
  entities :: "Entity list"
  grid :: SpatialGrid

definition newWorld :: "Entity list \<Rightarrow> error + World" where
  "newWorld es =
     (case newSpatialGrid es 2.0 of
        Inl e \<Rightarrow> Inl e
      | Inr g \<Rightarrow> Inr \<lparr>entities = es, grid = g\<rparr>)"

definition updateWorldEntities :: "World \<Rightarrow> Entity list \<Rightarrow> error + World" where
  "updateWorldEntities w es =
     (case updateEntities (grid w) es of
        Inl e \<Rightarrow> Inl e
      | Inr g \<Rightarrow> Inr \<lparr>entities = es, grid = g\<rparr>)"

text \<open>
  One turn of the loop of \<open>sample\<close> for candidate \<open>i\<close>.  An index outside the entity array
  would give \<open>undefined\<close>, whose \<open>transform\<close> cannot be read.
\<close>

definition sampleStep :: "World \<Rightarrow> Vec3 \<Rightarrow> nat \<Rightarrow> SampleResult \<Rightarrow> error + SampleResult" where
  "sampleStep w point i closest =
     (if i < length (World.entities w)
      then (let entity = World.entities w ! i;
                localPoint = worldToLocal point (transform entity);
                dist = evaluateSDF localPoint (geometry entity);
                scaleFactor = min (min (vx (scale (transform entity))) (vy (scale (transform entity))))
                                  (vz (scale (transform entity)));
                dist' = num_times dist scaleFactor
            in if num_less dist' (distance closest)
               then Inr \<lparr>distance = dist', material = Entity.material entity,
                         entityId = Entity.entityId entity, entityIndex = int i\<rparr>
               else Inr closest)
      else Inl TypeError)"

fun sampleLoop :: "World \<Rightarrow> Vec3 \<Rightarrow> nat list \<Rightarrow> SampleResult \<Rightarrow> error + SampleResult" where
  "sampleLoop w point [] closest = Inr closest"
| "sampleLoop w point (i # candidates) closest =
     (case sampleStep w point i closest of
        Inl e \<Rightarrow> Inl e
      | Inr closest' \<Rightarrow> sampleLoop w point candidates closest')"

definition sample :: "World \<Rightarrow> Vec3 \<Rightarrow> error + SampleResult" where
  "sample w point =
     sampleLoop w point (getCandidates (grid w) point)
       \<lparr>distance = PInf, material = EMPTY_MATERIAL, entityId = '''', entityIndex = -1\<rparr>"

section \<open>Sphere tracer (Raymarch.ts)\<close>

record Ray =
  origin :: Vec3
  direction :: Vec3

record HitResult =
  position :: Vec3
  normal :: Vec3
  material :: Material
  distance :: real
  entityIndex :: int

datatype RaymarchResult = Hit HitResult | Miss

definition DEFAULT_MAX_STEPS :: nat where
  "DEFAULT_MAX_STEPS = 64"

definition HIT_THRESHOLD :: real where
  "HIT_THRESHOLD = 0.01"

definition MAX_DISTANCE :: real where
  "MAX_DISTANCE = 100.0"

definition NORMAL_EPSILON :: real where
  "NORMAL_EPSILON = 0.001"

text \<open>
  The distance of one sample, as a real.  The normal is a vector of reals, so a sample
  that is not finite leaves the model.
\<close>

definition sampleDistance :: "World \<Rightarrow> Vec3 \<Rightarrow> error + real" where
  "sampleDistance world p =
     (case sample world p of
        Inl e \<Rightarrow> Inl e
      | Inr s \<Rightarrow> (case SampleResult.distance s of Fin d \<Rightarrow> Inr d | _ \<Rightarrow> Inl NonFinite))"

definition difference :: "error + real \<Rightarrow> error + real \<Rightarrow> error + real" where
  "difference a b =
     (case a of Inl e \<Rightarrow> Inl e
      | Inr u \<Rightarrow> (case b of Inl e \<Rightarrow> Inl e | Inr v \<Rightarrow> Inr (u - v)))"

definition computeNormal :: "Vec3 \<Rightarrow> World \<Rightarrow> error + Vec3" where
  "computeNormal pos world =
     (let eps = NORMAL_EPSILON;
          nx = difference (sampleDistance world \<lparr>vx = vx pos + eps, vy = vy pos, vz = vz pos\<rparr>)
                          (sampleDistance world \<lparr>vx = vx pos - eps, vy = vy pos, vz = vz pos\<rparr>);
          ny = difference (sampleDistance world \<lparr>vx = vx pos, vy = vy pos + eps, vz = vz pos\<rparr>)
                          (sampleDistance world \<lparr>vx = vx pos, vy = vy pos - eps, vz = vz pos\<rparr>);
          nz = difference (sampleDistance world \<lparr>vx = vx pos, vy = vy pos, vz = vz pos + eps\<rparr>)
                          (sampleDistance world \<lparr>vx = vx pos, vy = vy pos, vz = vz pos - eps\<rparr>)
      in case nx of Inl e \<Rightarrow> Inl e
         | Inr a \<Rightarrow> (case ny of Inl e \<Rightarrow> Inl e
            | Inr b \<Rightarrow> (case nz of Inl e \<Rightarrow> Inl e
               | Inr c \<Rightarrow> Inr (normalize_v \<lparr>vx = a, vy = b, vz = c\<rparr>))))"

text \<open>
  The loop of \<open>raymarch\<close> with \<open>n\<close> turns left and ray parameter \<open>t\<close>.  After
  \<open>t += sample.distance\<close> an infinite \<open>t\<close> exceeds \<open>MAX_DISTANCE\<close> and ends the loop;
  a \<open>t\<close> that is minus infinity or NaN does not, and the next position would not be a
  vector of reals.
\<close>

fun march :: "Ray \<Rightarrow> World \<Rightarrow> nat \<Rightarrow> real \<Rightarrow> error + RaymarchResult" where
  "march ray world 0 t = Inr Miss"
| "march ray world (Suc n) t =
     (let pos = add_v (origin ray) (mul_v (direction ray) t)
      in case sample world pos of
           Inl e \<Rightarrow> Inl e
         | Inr s \<Rightarrow>
             if num_less (SampleResult.distance s) (Fin HIT_THRESHOLD)
             then (case computeNormal pos world of
                     Inl e \<Rightarrow> Inl e
                   | Inr nrm \<Rightarrow>
                       Inr (Hit \<lparr>position = pos, normal = nrm,
                                 material = SampleResult.material s, distance = t,
                                 entityIndex = SampleResult.entityIndex s\<rparr>))
             else (case num_plus t (SampleResult.distance s) of
                     Fin t' \<Rightarrow> if t' > MAX_DISTANCE then Inr Miss else march ray world n t'
                   | PInf \<Rightarrow> Inr Miss
                   | _ \<Rightarrow> if n = 0 then Inr Miss else Inl NonFinite))"

definition raymarch :: "Ray \<Rightarrow> World \<Rightarrow> nat \<Rightarrow> error + RaymarchResult" where
  "raymarch ray world maxSteps = march ray world maxSteps 0"

text \<open>
  The two set-ups of the repository's tests: \<open>new World(entities).sample(point)\<close> and
  \<open>raymarch(ray, new World(entities))\<close> with the default step budget.
\<close>

definition sampleScene :: "Entity list \<Rightarrow> Vec3 \<Rightarrow> error + SampleResult" where
  "sampleScene es point =
     (case newWorld es of Inl e \<Rightarrow> Inl e | Inr w \<Rightarrow> sample w point)"

definition raymarchScene :: "Entity list \<Rightarrow> Ray \<Rightarrow> error + RaymarchResult" where
  "raymarchScene es ray =
     (case newWorld es of Inl e \<Rightarrow> Inl e | Inr w \<Rightarrow> raymarch ray w DEFAULT_MAX_STEPS)"

section \<open>Glyph cache (GlyphCache.ts)\<close>

definition BRIGHTNESS_BUCKETS :: int where
  "BRIGHTNESS_BUCKETS = 32"

definition ROUNDNESS_BUCKETS :: int where
  "ROUNDNESS_BUCKETS = 8"

definition COMPLEXITY_BUCKETS :: int where
  "COMPLEXITY_BUCKETS = 8"

definition STYLE_COUNT :: int where
  "STYLE_COUNT = 9"

definition CACHE_SIZE :: nat where
  "CACHE_SIZE = nat (BRIGHTNESS_BUCKETS * ROUNDNESS_BUCKETS * COMPLEXITY_BUCKETS * STYLE_COUNT)"

fun styleToIndex :: "GlyphStyle option \<Rightarrow> int" where
  "styleToIndex None = 0"
| "styleToIndex (Some Dense) = 1"
| "styleToIndex (Some Light) = 2"
| "styleToIndex (Some Round) = 3"
| "styleToIndex (Some Angular) = 4"
| "styleToIndex (Some Line) = 5"
| "styleToIndex (Some Noise) = 6"
| "styleToIndex (Some Block) = 7"
| "styleToIndex (Some Symbolic) = 8"

definition buildKey :: "GlyphQueryParams \<Rightarrow> int" where
  "buildKey params =
     (let bb = min (BRIGHTNESS_BUCKETS - 1)
                   \<lfloor>targetCoverage params * of_int (BRIGHTNESS_BUCKETS - 1)\<rfloor>;
          rb = min (ROUNDNESS_BUCKETS - 1)
                   \<lfloor>(case targetRoundness params of None \<Rightarrow> 0.5 | Some r \<Rightarrow> r)
                      * of_int (ROUNDNESS_BUCKETS - 1)\<rfloor>;
          cb = min (COMPLEXITY_BUCKETS - 1)
                   \<lfloor>(case targetComplexity params of None \<Rightarrow> 0.5 | Some c \<Rightarrow> c)
                      * of_int (COMPLEXITY_BUCKETS - 1)\<rfloor>;
          si = styleToIndex (GlyphQueryParams.glyphStyle params)
      in bb
         + rb * BRIGHTNESS_BUCKETS
         + cb * BRIGHTNESS_BUCKETS * ROUNDNESS_BUCKETS
         + si * BRIGHTNESS_BUCKETS * ROUNDNESS_BUCKETS * COMPLEXITY_BUCKETS)"

text \<open>
  The object: the database's sorted array, the table (\<open>None\<close> is \<open>null\<close>) and the two
  counters.
\<close>

record GlyphCache =
  db :: "GlyphRecord list"
  cache :: "GlyphRecord option list"
  hits :: nat
  misses :: nat

definition newGlyphCache :: "GlyphRecord list \<Rightarrow> GlyphCache" where
  "newGlyphCache glyphs = \<lparr>db = glyphs, cache = replicate CACHE_SIZE None, hits = 0, misses = 0\<rparr>"

text \<open>
  \<open>select\<close> returns the record and the updated object.  A key outside the table reads
  \<open>undefined\<close>, which is not \<open>null\<close>: the call counts as a hit and returns
  \<open>undefined\<close> (the result \<open>None\<close>).
\<close>

definition select :: "GlyphCache \<Rightarrow> GlyphQueryParams \<Rightarrow> error + (GlyphRecord option \<times> GlyphCache)" where
  "select c params =
     (let key = buildKey params
      in if key < 0 \<or> int (length (cache c)) \<le> key
         then Inr (None, c\<lparr>hits := hits c + 1\<rparr>)
         else (case cache c ! nat key of
                 Some cached \<Rightarrow> Inr (Some cached, c\<lparr>hits := hits c + 1\<rparr>)
               | None \<Rightarrow>
                   (case queryBest (db c) params of
                      Inl e \<Rightarrow> Inl e
                    | Inr result \<Rightarrow>
                        Inr (Some result,
                             c\<lparr>misses := misses c + 1,
                               cache := (cache c)[nat key := Some result]\<rparr>))))"

definition clearCache :: "GlyphCache \<Rightarrow> GlyphCache" where
  "clearCache c = c\<lparr>cache := map (\<lambda>v. None) (cache c), hits := 0, misses := 0\<rparr>"

text \<open>A run of \<open>select\<close> calls whose results are dropped; an exception ends the run.\<close>

fun selectAll :: "GlyphCache \<Rightarrow> GlyphQueryParams list \<Rightarrow> error + GlyphCache" where
  "selectAll c [] = Inr c"
| "selectAll c (params # rest) =
     (case select c params of
        Inl e \<Rightarrow> Inl e
      | Inr (result, c') \<Rightarrow> selectAll c' rest)"

text \<open>\<open>Object.entries(STYLE_INDEX).find(([, v]) => v === si)?.[0]\<close>.\<close>

fun styleOfIndex :: "nat \<Rightarrow> GlyphStyle option" where
  "styleOfIndex si =
     (if si = 1 then Some Dense else if si = 2 then Some Light
      else if si = 3 then Some Round else if si = 4 then Some Angular
      else if si = 5 then Some Line else if si = 6 then Some Noise
      else if si = 7 then Some Block else if si = 8 then Some Symbolic
      else None)"

definition warmupQuery :: "nat \<Rightarrow> nat \<Rightarrow> nat \<Rightarrow> nat \<Rightarrow> GlyphQueryParams" where
  "warmupQuery si bb rb cb =
     \<lparr>targetCoverage = real bb / of_int (BRIGHTNESS_BUCKETS - 1),
      targetRoundness = Some (real rb / of_int (ROUNDNESS_BUCKETS - 1)),
      targetComplexity = Some (real cb / of_int (COMPLEXITY_BUCKETS - 1)),
      GlyphQueryParams.glyphStyle = styleOfIndex si\<rparr>"

text \<open>The queries of the four nested loops of \<open>warmup\<close>, in loop order.\<close>

definition warmupQueries :: "GlyphQueryParams list" where
  "warmupQueries =
     concat (map (\<lambda>si.
       concat (map (\<lambda>bb.
         concat (map (\<lambda>rb.
           map (\<lambda>cb. warmupQuery si bb rb cb) [0..<nat COMPLEXITY_BUCKETS])
           [0..<nat ROUNDNESS_BUCKETS]))
         [0..<nat BRIGHTNESS_BUCKETS]))
       [0..<nat STYLE_COUNT])"

definition warmup :: "GlyphCache \<Rightarrow> error + GlyphCache" where
  "warmup c =
     (case selectAll c warmupQueries of
        Inl e \<Rightarrow> Inl e
      | Inr c' \<Rightarrow> Inr (c'\<lparr>hits := 0, misses := 0\<rparr>))"

section \<open>Typed arrays\<close>

text \<open>
  Storing a number in a typed array converts it.  Integer arrays truncate towards zero and
  wrap modulo the element width; NaN and the infinities become 0.  \<open>Float32Array\<close> rounds
  to the nearest float32, ties to even, and to an infinity from magnitude
  \<open>2^128 - 2^103\<close> on; NaN and the infinities are stored as they are.  A read outside the
  array gives \<open>undefined\<close> (\<open>None\<close>); a write outside it is ignored, as \<open>xs[i := v]\<close> is.
\<close>

definition truncate_num :: "real \<Rightarrow> int" where
  "truncate_num v = (if 0 \<le> v then \<lfloor>v\<rfloor> else \<lceil>v\<rceil>)"

fun toUint32 :: "number \<Rightarrow> 32 word" where
  "toUint32 (Fin v) = word_of_int (truncate_num v)"
| "toUint32 _ = 0"

fun toUint8 :: "number \<Rightarrow> 8 word" where
  "toUint8 (Fin v) = word_of_int (truncate_num v)"
| "toUint8 _ = 0"

fun toInt16 :: "number \<Rightarrow> 16 word" where
  "toInt16 (Fin v) = word_of_int (truncate_num v)"
| "toInt16 _ = 0"

definition round_half_even :: "real \<Rightarrow> int" where
  "round_half_even v =
     (let f = \<lfloor>v\<rfloor>; d = v - of_int f
      in if d < 1/2 then f else if 1/2 < d then f + 1 else if even f then f else f + 1)"

text \<open>
  The multiple of the float32 unit in the last place nearest to \<open>v\<close>: 24 significant bits
  from exponent \<open>-126\<close> up, the fixed unit \<open>2^-149\<close> below.
\<close>

definition nearestFloat32 :: "real \<Rightarrow> real" where
  "nearestFloat32 v =
     (if v = 0 then 0
      else let e = max \<lfloor>log 2 \<bar>v\<bar>\<rfloor> (-126); ulp = 2 powr of_int (e - 23)
           in of_int (round_half_even (v / ulp)) * ulp)"

fun fround :: "number \<Rightarrow> number" where
  "fround (Fin v) =
     (if 2 ^ 128 \<le> \<bar>nearestFloat32 v\<bar> then (if 0 < v then PInf else NInf)
      else Fin (nearestFloat32 v))"
| "fround PInf = PInf"
| "fround NInf = NInf"
| "fround NaN = NaN"

definition readAt :: "'a list \<Rightarrow> nat \<Rightarrow> 'a option" where
  "readAt xs i = (if i < length xs then Some (xs ! i) else None)"

text \<open>The number read from an unsigned integer array.\<close>

definition readUnsigned :: "'a::len word list \<Rightarrow> nat \<Rightarrow> number option" where
  "readUnsigned xs i = map_option (\<lambda>w. Fin (real_of_int (uint w))) (readAt xs i)"

text \<open>
  \<open>array[idx] !== value\<close>: \<open>undefined\<close> differs from every number, and NaN differs from
  everything, itself included.
\<close>

definition strictNe :: "number option \<Rightarrow> number \<Rightarrow> bool" where
  "strictNe stored v =
     (case stored of None \<Rightarrow> True | Some u \<Rightarrow> u = NaN \<or> v = NaN \<or> u \<noteq> v)"

section \<open>Output buffer (FrameBuffer.ts)\<close>

record FrameBuffer =
  width :: nat
  height :: nat
  chars :: "32 word list"
  colorR :: "8 word list"
  colorG :: "8 word list"
  colorB :: "8 word list"
  brightness :: "number list"
  dirty :: "8 word list"

definition clear :: "FrameBuffer \<Rightarrow> FrameBuffer" where
  "clear fb =
     fb\<lparr>chars := map (\<lambda>v. 0x20) (chars fb),
        colorR := map (\<lambda>v. 0) (colorR fb),
        colorG := map (\<lambda>v. 0) (colorG fb),
        colorB := map (\<lambda>v. 0) (colorB fb),
        brightness := map (\<lambda>v. Fin 0) (FrameBuffer.brightness fb),
        dirty := map (\<lambda>v. 1) (dirty fb)\<rparr>"

definition newFrameBuffer :: "nat \<Rightarrow> nat \<Rightarrow> FrameBuffer" where
  "newFrameBuffer w h =
     clear \<lparr>width = w, height = h,
            chars = replicate (w * h) 0, colorR = replicate (w * h) 0,
            colorG = replicate (w * h) 0, colorB = replicate (w * h) 0,
            brightness = replicate (w * h) (Fin 0), dirty = replicate (w * h) 0\<rparr>"

text \<open>
  \<open>set\<close>.  Each of the five comparisons is between the number read from the array and the
  argument as given; each store converts the argument.
\<close>

definition set_cell ::
  "FrameBuffer \<Rightarrow> nat \<Rightarrow> nat \<Rightarrow> number \<Rightarrow> number \<Rightarrow> number \<Rightarrow> number \<Rightarrow> number \<Rightarrow> FrameBuffer" where
  "set_cell fb x y c r g b br =
     (let idx = y * width fb + x;
          d1 = strictNe (readUnsigned (chars fb) idx) c;
          d2 = strictNe (readUnsigned (colorR fb) idx) r;
          d3 = strictNe (readUnsigned (colorG fb) idx) g;
          d4 = strictNe (readUnsigned (colorB fb) idx) b;
          d5 = strictNe (readAt (FrameBuffer.brightness fb) idx) br;
          changed = (d1 \<or> d2 \<or> d3 \<or> d4 \<or> d5)
      in fb\<lparr>chars := (if d1 then (chars fb)[idx := toUint32 c] else chars fb),
            colorR := (if d2 then (colorR fb)[idx := toUint8 r] else colorR fb),
            colorG := (if d3 then (colorG fb)[idx := toUint8 g] else colorG fb),
            colorB := (if d4 then (colorB fb)[idx := toUint8 b] else colorB fb),
            brightness := (if d5 then (FrameBuffer.brightness fb)[idx := fround br]
                           else FrameBuffer.brightness fb),
            dirty := (if changed then (dirty fb)[idx := 1] else dirty fb)\<rparr>)"

definition isDirty :: "FrameBuffer \<Rightarrow> nat \<Rightarrow> nat \<Rightarrow> bool" where
  "isDirty fb x y = (readUnsigned (dirty fb) (y * width fb + x) = Some (Fin 1))"

definition clearDirtyFlags :: "FrameBuffer \<Rightarrow> FrameBuffer" where
  "clearDirtyFlags fb = fb\<lparr>dirty := map (\<lambda>v. 0) (dirty fb)\<rparr>"

definition resize_fb :: "FrameBuffer \<Rightarrow> nat \<Rightarrow> nat \<Rightarrow> FrameBuffer" where
  "resize_fb fb newWidth newHeight = newFrameBuffer newWidth newHeight"

section \<open>Scene, camera rays and lighting (types.ts, Camera.ts, Lighting.ts)\<close>

record Camera =
  position :: Vec3
  rotation :: Vec3
  fov :: real
  near :: real
  far :: real

record Environment =
  ambientLight :: real
  backgroundColor :: Color
  fogDensity :: "real option"
  fogColor :: "Color option"
  globalIllumination :: "real option"

datatype NoiseKind = RandomNoise | PerlinNoise | WaveNoise

record FlickerBehavior =
  speed :: real
  amplitude :: real
  noise :: NoiseKind

datatype LightType = Directional | Point | Spot | Area

text \<open>The fields \<open>type\<close> and \<open>range\<close> of a light are written \<open>lightType\<close> and \<open>lightRange\<close>.\<close>

record Light =
  lightType :: LightType
  position :: "Vec3 option"
  direction :: "Vec3 option"
  intensity :: real
  color :: Color
  lightRange :: "real option"
  falloff :: "real option"
  flicker :: "FlickerBehavior option"

record Scene =
  time :: real
  camera :: Camera
  environment :: Environment
  lights :: "Light list"
  entities :: "Entity list"

definition CHAR_ASPECT_RATIO :: real where
  "CHAR_ASPECT_RATIO = 0.5"

definition createRay :: "Camera \<Rightarrow> nat \<Rightarrow> nat \<Rightarrow> nat \<Rightarrow> nat \<Rightarrow> Ray" where
  "createRay cam x y screenWidth screenHeight =
     (let fovRad = fov cam * pi / 180;
          tanHalfFov = tan (fovRad / 2);
          aspectRatio = (real screenWidth / real screenHeight) * CHAR_ASPECT_RATIO;
          ndcX = (2 * (real x + 0.5) / real screenWidth - 1) * aspectRatio * tanHalfFov;
          ndcY = (1 - 2 * (real y + 0.5) / real screenHeight) * tanHalfFov;
          pitch = vx (Camera.rotation cam);
          yaw = vy (Camera.rotation cam);
          cp = cos pitch; sp = sin pitch;
          cy = cos yaw; sy = sin yaw;
          rightX = cy; rightY = 0; rightZ = - sy;
          upX = sy * sp; upY = cp; upZ = cy * sp;
          fwdX = - sy * cp; fwdY = sp; fwdZ = - cy * cp;
          dirWorld = normalize_v
            \<lparr>vx = ndcX * rightX + ndcY * upX + fwdX,
             vy = ndcX * rightY + ndcY * upY + fwdY,
             vz = ndcX * rightZ + ndcY * upZ + fwdZ\<rparr>
      in \<lparr>origin = Camera.position cam, Ray.direction = dirWorld\<rparr>)"

record LightingResult =
  brightness :: real
  litR :: real
  litG :: real
  litB :: real

definition clamp :: "real \<Rightarrow> real \<Rightarrow> real \<Rightarrow> real" where
  "clamp v lo hi = max lo (min hi v)"

text \<open>
  The contribution of one light; \<open>None\<close> is the \<open>continue\<close> of the loop (the light adds
  nothing, not even a zero term).
\<close>

definition lightContribution :: "Vec3 \<Rightarrow> Vec3 \<Rightarrow> Light \<Rightarrow> real option" where
  "lightContribution hitPos nrm light =
     (case lightType light of
        Point \<Rightarrow>
          (case Light.position light of
             None \<Rightarrow> None
           | Some lp \<Rightarrow>
               let toLight = sub_v lp hitPos; dist = length_v toLight
               in if dist = 0 then None
                  else let dir = normalize_v toLight;
                           ndotl = max 0 (dot_v nrm dir);
                           attenuation =
                             (case falloff light of
                                Some f \<Rightarrow> intensity light / (dist powr f)
                              | None \<Rightarrow>
                                  (case lightRange light of
                                     None \<Rightarrow> intensity light / (dist * dist)
                                   | Some rg \<Rightarrow>
                                       if dist > rg then 0
                                       else intensity light / (dist * dist)
                                            * max 0 (1 - (dist / rg) ^ 2)))
                       in Some (ndotl * attenuation))
      | Directional \<Rightarrow>
          (case Light.direction light of
             None \<Rightarrow> None
           | Some d \<Rightarrow>
               let dir = normalize_v \<lparr>vx = - vx d, vy = - vy d, vz = - vz d\<rparr>;
                   ndotl = max 0 (dot_v nrm dir)
               in Some (ndotl * intensity light))
      | Spot \<Rightarrow>
          (case Light.position light of
             None \<Rightarrow> None
           | Some lp \<Rightarrow>
               (case Light.direction light of
                  None \<Rightarrow> None
                | Some d \<Rightarrow>
                    let toLight = sub_v lp hitPos; dist = length_v toLight
                    in if dist = 0 then None
                       else let dir = normalize_v toLight;
                                ndotl = max 0 (dot_v nrm dir);
                                spotDir = normalize_v d;
                                spotAngle = dot_v \<lparr>vx = - vx dir, vy = - vy dir, vz = - vz dir\<rparr> spotDir;
                                cosCone = cos (30 * pi / 180)
                            in if spotAngle < cosCone then Some 0
                               else Some (ndotl * intensity light / (dist * dist))))
      | Area \<Rightarrow> Some 0)"

definition addLight :: "Vec3 \<Rightarrow> Vec3 \<Rightarrow> Light \<Rightarrow> real \<times> real \<times> real \<Rightarrow> real \<times> real \<times> real" where
  "addLight hitPos nrm light acc =
     (case lightContribution hitPos nrm light of
        None \<Rightarrow> acc
      | Some contribution \<Rightarrow>
          (case acc of (totalR, totalG, totalB) \<Rightarrow>
             (totalR + contribution * (chR (color light) / 255),
              totalG + contribution * (chG (color light) / 255),
              totalB + contribution * (chB (color light) / 255))))"

definition computeLighting :: "Vec3 \<Rightarrow> Vec3 \<Rightarrow> Material \<Rightarrow> Scene \<Rightarrow> LightingResult" where
  "computeLighting hitPos nrm mat scene =
     (case fold (addLight hitPos nrm) (lights scene) (0, 0, 0) of (tR, tG, tB) \<Rightarrow>
        let em = (case emissive mat of None \<Rightarrow> 0 | Some e \<Rightarrow> if e > 0 then e else 0);
            totalR = tR + em + ambientLight (environment scene);
            totalG = tG + em + ambientLight (environment scene);
            totalB = tB + em + ambientLight (environment scene);
            finalR = clamp (of_int \<lfloor>totalR * chR (baseColor mat)\<rfloor>) 0 255;
            finalG = clamp (of_int \<lfloor>totalG * chG (baseColor mat)\<rfloor>) 0 255;
            finalB = clamp (of_int \<lfloor>totalB * chB (baseColor mat)\<rfloor>) 0 255
        in \<lparr>brightness = clamp ((totalR + totalG + totalB) / 3) 0 1,
            litR = finalR, litG = finalG, litB = finalB\<rparr>)"

section \<open>Step budget (AdaptiveQuality.ts) and glyph animation (Animator.ts)\<close>

definition getMaxSteps :: "nat \<Rightarrow> nat \<Rightarrow> nat \<Rightarrow> nat \<Rightarrow> nat" where
  "getMaxSteps x y screenW screenH =
     (let cx = (real x / real screenW - 0.5) * 2;
          cy = (real y / real screenH - 0.5) * 2;
          distFromCenter = sqrt (cx * cx + cy * cy) / sqrt 2
      in nat \<lfloor>64 - distFromCenter * (64 - 24)\<rfloor>)"

text \<open>
  \<open>glyphCache ? glyphCache.select(params) : null\<close>.  The result \<open>None\<close> stands for both
  \<open>null\<close> and \<open>undefined\<close>; the callers only test it for truthiness.
\<close>

definition selectGlyph ::
  "GlyphCache option \<Rightarrow> GlyphQueryParams \<Rightarrow> error + (GlyphRecord option \<times> GlyphCache option)" where
  "selectGlyph gc params =
     (case gc of
        None \<Rightarrow> Inr (None, None)
      | Some c \<Rightarrow>
          (case select c params of
             Inl e \<Rightarrow> Inl e
           | Inr (glyph, c') \<Rightarrow> Inr (glyph, Some c')))"

definition animateGlyph ::
  "GlyphRecord \<Rightarrow> Material \<Rightarrow> real \<Rightarrow> GlyphQueryParams \<Rightarrow> GlyphCache
     \<Rightarrow> error + (GlyphRecord option \<times> GlyphCache)" where
  "animateGlyph glyph mat t originalParams gc =
     (case motionBehavior mat of
        None \<Rightarrow> Inr (Some glyph, gc)
      | Some mb \<Rightarrow>
          (case motionType mb of
             MStatic \<Rightarrow> Inr (Some glyph, gc)
           | MPulse \<Rightarrow>
               let pulseFactor = 1 + sin (t * MotionBehavior.speed mb) * 0.3;
                   newCoverage = clamp (normalizedCoverage glyph * pulseFactor) 0 1
               in select gc (originalParams\<lparr>targetCoverage := newCoverage\<rparr>)
           | MFlicker \<Rightarrow>
               let offset = sin (t * MotionBehavior.speed mb * 17.3)
                            * sin (t * MotionBehavior.speed mb * 11.1) * 0.15;
                   flickerCoverage = clamp (normalizedCoverage glyph + offset) 0 1
               in select gc (originalParams\<lparr>targetCoverage := flickerCoverage\<rparr>)
           | MFlow \<Rightarrow>
               let flowComplexity = (sin (t * MotionBehavior.speed mb) + 1) / 2
               in select gc (originalParams\<lparr>targetComplexity := Some flowComplexity\<rparr>)))"

text \<open>
  The brightness ramp of the render loop.  Strings are lists of 8-bit characters, and
  \<open>codePointAt(0)\<close> is the code of the first one (\<open>undefined\<close> on the empty string).
\<close>

definition RAMP :: string where
  "RAMP = '' .,:;=+*#%@''"

definition rampAt :: "int \<Rightarrow> string option" where
  "rampAt i = (if 0 \<le> i \<and> i < int (length RAMP) then Some [RAMP ! nat i] else None)"

definition codePointAt0 :: "string \<Rightarrow> real option" where
  "codePointAt0 s = (case s of [] \<Rightarrow> None | ch # rest \<Rightarrow> Some (real (of_char ch)))"

section \<open>Temporal cache (TemporalCache.ts)\<close>

record TemporalCache =
  width :: nat
  height :: nat
  depth :: "number list"
  entityIndex :: "16 word list"
  valid :: "8 word list"
  hitPosX :: "number list"
  hitPosY :: "number list"
  hitPosZ :: "number list"
  normalX :: "number list"
  normalY :: "number list"
  normalZ :: "number list"
  prevCameraPos :: Vec3
  prevCameraRot :: Vec3

definition newTemporalCache :: "nat \<Rightarrow> nat \<Rightarrow> TemporalCache" where
  "newTemporalCache w h =
     \<lparr>width = w, height = h,
      depth = replicate (w * h) (Fin 0),
      entityIndex = replicate (w * h) (-1),
      valid = replicate (w * h) 0,
      hitPosX = replicate (w * h) (Fin 0), hitPosY = replicate (w * h) (Fin 0),
      hitPosZ = replicate (w * h) (Fin 0),
      normalX = replicate (w * h) (Fin 0), normalY = replicate (w * h) (Fin 0),
      normalZ = replicate (w * h) (Fin 0),
      prevCameraPos = \<lparr>vx = 0, vy = 0, vz = 0\<rparr>,
      prevCameraRot = \<lparr>vx = 0, vy = 0, vz = 0\<rparr>\<rparr>"

definition invalidateAll :: "TemporalCache \<Rightarrow> TemporalCache" where
  "invalidateAll tc = tc\<lparr>valid := map (\<lambda>v. 0) (valid tc)\<rparr>"

definition resize_tc :: "TemporalCache \<Rightarrow> nat \<Rightarrow> nat \<Rightarrow> TemporalCache" where
  "resize_tc tc newWidth newHeight =
     (newTemporalCache newWidth newHeight)
       \<lparr>prevCameraPos := prevCameraPos tc, prevCameraRot := prevCameraRot tc\<rparr>"

definition store :: "TemporalCache \<Rightarrow> nat \<Rightarrow> nat \<Rightarrow> real \<Rightarrow> int \<Rightarrow> Vec3 \<Rightarrow> Vec3 \<Rightarrow> TemporalCache" where
  "store tc x y d entityIdx hitPos nrm =
     (let idx = y * TemporalCache.width tc + x
      in tc\<lparr>depth := (depth tc)[idx := fround (Fin d)],
            entityIndex := (TemporalCache.entityIndex tc)[idx := toInt16 (Fin (of_int entityIdx))],
            hitPosX := (hitPosX tc)[idx := fround (Fin (vx hitPos))],
            hitPosY := (hitPosY tc)[idx := fround (Fin (vy hitPos))],
            hitPosZ := (hitPosZ tc)[idx := fround (Fin (vz hitPos))],
            normalX := (normalX tc)[idx := fround (Fin (vx nrm))],
            normalY := (normalY tc)[idx := fround (Fin (vy nrm))],
            normalZ := (normalZ tc)[idx := fround (Fin (vz nrm))],
            valid := (valid tc)[idx := 1]\<rparr>)"

definition storeMiss :: "TemporalCache \<Rightarrow> nat \<Rightarrow> nat \<Rightarrow> TemporalCache" where
  "storeMiss tc x y =
     (let idx = y * TemporalCache.width tc + x
      in tc\<lparr>entityIndex := (TemporalCache.entityIndex tc)[idx := -1],
            valid := (valid tc)[idx := 1]\<rparr>)"

definition isValid :: "TemporalCache \<Rightarrow> nat \<Rightarrow> nat \<Rightarrow> bool" where
  "isValid tc x y = (readUnsigned (valid tc) (y * TemporalCache.width tc + x) = Some (Fin 1))"

text \<open>
  The three getters.  Position and normal are vectors of reals: \<open>None\<close> is a read outside
  the arrays or of a component that is not finite.
\<close>

definition getHitPos :: "TemporalCache \<Rightarrow> nat \<Rightarrow> nat \<Rightarrow> Vec3 option" where
  "getHitPos tc x y =
     (let idx = y * TemporalCache.width tc + x
      in case (readAt (hitPosX tc) idx, readAt (hitPosY tc) idx, readAt (hitPosZ tc) idx) of
           (Some (Fin a), Some (Fin b), Some (Fin c)) \<Rightarrow> Some \<lparr>vx = a, vy = b, vz = c\<rparr>
         | _ \<Rightarrow> None)"

definition getNormal :: "TemporalCache \<Rightarrow> nat \<Rightarrow> nat \<Rightarrow> Vec3 option" where
  "getNormal tc x y =
     (let idx = y * TemporalCache.width tc + x
      in case (readAt (normalX tc) idx, readAt (normalY tc) idx, readAt (normalZ tc) idx) of
           (Some (Fin a), Some (Fin b), Some (Fin c)) \<Rightarrow> Some \<lparr>vx = a, vy = b, vz = c\<rparr>
         | _ \<Rightarrow> None)"

definition getEntityIndex :: "TemporalCache \<Rightarrow> nat \<Rightarrow> nat \<Rightarrow> int option" where
  "getEntityIndex tc x y =
     map_option sint (readAt (TemporalCache.entityIndex tc) (y * TemporalCache.width tc + x))"

definition cameraChanged :: "TemporalCache \<Rightarrow> Vec3 \<Rightarrow> Vec3 \<Rightarrow> bool" where
  "cameraChanged tc camPos camRot =
     (let threshold = 0.001; p = prevCameraPos tc; r = prevCameraRot tc
      in \<bar>vx camPos - vx p\<bar> > threshold \<or>
         \<bar>vy camPos - vy p\<bar> > threshold \<or>
         \<bar>vz camPos - vz p\<bar> > threshold \<or>
         \<bar>vx camRot - vx r\<bar> > threshold \<or>
         \<bar>vy camRot - vy r\<bar> > threshold \<or>
         \<bar>vz camRot - vz r\<bar> > threshold)"

definition updateCamera :: "TemporalCache \<Rightarrow> Vec3 \<Rightarrow> Vec3 \<Rightarrow> TemporalCache" where
  "updateCamera tc camPos camRot =
     tc\<lparr>prevCameraPos := \<lparr>vx = vx camPos, vy = vy camPos, vz = vz camPos\<rparr>,
        prevCameraRot := \<lparr>vx = vx camRot, vy = vy camRot, vz = vz camRot\<rparr>\<rparr>"

section \<open>Frame orchestrator (RenderLoop.ts)\<close>

text \<open>
  The fields of the class that \<open>renderFrameSingleThread\<close> reads or writes.  \<open>traces\<close> is
  not a field of the source: it counts the calls of \<open>raymarch\<close>.
\<close>

record RenderLoop =
  scene :: Scene
  world :: World
  glyphCache :: "GlyphCache option"
  temporal :: TemporalCache
  useTemporalReuse :: bool
  useAdaptiveQuality :: bool
  traces :: nat

definition newRenderLoop ::
  "Scene \<Rightarrow> FrameBuffer \<Rightarrow> GlyphCache option \<Rightarrow> bool \<Rightarrow> bool \<Rightarrow> error + RenderLoop" where
  "newRenderLoop sc fb gc reuse adaptive =
     (case newWorld (Scene.entities sc) of
        Inl e \<Rightarrow> Inl e
      | Inr w \<Rightarrow>
          Inr \<lparr>scene = sc, world = w, glyphCache = gc,
               temporal = newTemporalCache (FrameBuffer.width fb) (FrameBuffer.height fb),
               useTemporalReuse = reuse, useAdaptiveQuality = adaptive, traces = 0\<rparr>)"

definition hasAnyFlicker :: "Scene \<Rightarrow> bool" where
  "hasAnyFlicker sc = list_ex (\<lambda>l. flicker l \<noteq> None) (lights sc)"

definition entityMoves :: "Entity \<Rightarrow> bool" where
  "entityMoves e \<longleftrightarrow> velocity e \<noteq> None \<or> angularVelocity e \<noteq> None"

definition hasAnyMoving :: "Scene \<Rightarrow> bool" where
  "hasAnyMoving sc = list_ex entityMoves (Scene.entities sc)"

text \<open>\<open>scene.entities[eIdx]\<close> for a number read from the \<open>Int16Array\<close>.\<close>

definition entityAt :: "Entity list \<Rightarrow> int \<Rightarrow> Entity option" where
  "entityAt es i = (if 0 \<le> i \<and> i < int (length es) then Some (es ! nat i) else None)"

definition glyphParams :: "LightingResult \<Rightarrow> Vec3 \<Rightarrow> Material \<Rightarrow> GlyphQueryParams" where
  "glyphParams lit nrm mat =
     \<lparr>targetCoverage = LightingResult.brightness lit,
      targetRoundness = Some \<bar>vz nrm\<bar>,
      targetComplexity = Some (roughness mat),
      GlyphQueryParams.glyphStyle = Material.glyphStyle mat\<rparr>"

text \<open>
  The code point written for a glyph or, without one, for the ramp character at the given
  index.  \<open>RAMP[i]\<close> outside the string is \<open>undefined\<close>, whose \<open>codePointAt\<close> cannot be
  called.  The code point of an empty string is \<open>undefined\<close>, which \<open>set\<close> compares and
  stores as it does NaN.
\<close>

definition glyphCodePoint :: "GlyphRecord option \<Rightarrow> int \<Rightarrow> error + number" where
  "glyphCodePoint glyph rampIndex =
     (case (case glyph of Some g \<Rightarrow> Some (char g) | None \<Rightarrow> rampAt rampIndex) of
        None \<Rightarrow> Inl TypeError
      | Some s \<Rightarrow> (case codePointAt0 s of None \<Rightarrow> Inr NaN | Some cp \<Rightarrow> Inr (Fin cp)))"

text \<open>
  Shading of a fresh hit (lighting, glyph lookup, glyph animation, ramp fallback): the new
  glyph cache, the code point and the lighting result.
\<close>

definition shadeHit ::
  "Scene \<Rightarrow> GlyphCache option \<Rightarrow> HitResult \<Rightarrow> error + (GlyphCache option \<times> number \<times> LightingResult)" where
  "shadeHit sc gc res =
     (let lit = computeLighting (HitResult.position res) (normal res) (HitResult.material res) sc;
          params = glyphParams lit (normal res) (HitResult.material res)
      in case selectGlyph gc params of
           Inl e \<Rightarrow> Inl e
         | Inr (glyph, gc1) \<Rightarrow>
             (case (case (glyph, motionBehavior (HitResult.material res), gc1) of
                      (Some g, Some mb, Some c) \<Rightarrow>
                        (let p = HitResult.position res;
                             pixelOffset = sin (vx p * 1.7 + vy p * 2.3 + vz p * 1.1)
                         in case animateGlyph g (HitResult.material res)
                                   (time sc + pixelOffset * 0.5) params c of
                              Inl e \<Rightarrow> Inl e
                            | Inr (g', c') \<Rightarrow> Inr (g', Some c'))
                    | _ \<Rightarrow> Inr (glyph, gc1)) of
                Inl e \<Rightarrow> Inl e
              | Inr (glyph2, gc2) \<Rightarrow>
                  (case glyphCodePoint glyph2
                          \<lfloor>clamp (of_int \<lfloor>LightingResult.brightness lit * 10\<rfloor>) 0 10\<rfloor> of
                     Inl e \<Rightarrow> Inl e
                   | Inr cp \<Rightarrow> Inr (gc2, cp, lit))))"

text \<open>Shading on the geometry-reuse path: stored position and normal, no animation.\<close>

definition reshade ::
  "Scene \<Rightarrow> GlyphCache option \<Rightarrow> Vec3 option \<Rightarrow> Vec3 option \<Rightarrow> Entity option
     \<Rightarrow> error + (GlyphCache option \<times> number \<times> LightingResult)" where
  "reshade sc gc hitPos nrm entity =
     (case entity of
        None \<Rightarrow> Inl TypeError
      | Some e \<Rightarrow>
          (case (hitPos, nrm) of
             (Some p, Some n) \<Rightarrow>
               (let lit = computeLighting p n (Entity.material e) sc;
                    params = glyphParams lit n (Entity.material e)
                in case selectGlyph gc params of
                     Inl err \<Rightarrow> Inl err
                   | Inr (glyph, gc1) \<Rightarrow>
                       (case glyphCodePoint glyph \<lfloor>LightingResult.brightness lit * 10\<rfloor> of
                          Inl err \<Rightarrow> Inl err
                        | Inr cp \<Rightarrow> Inr (gc1, cp, lit)))
           | _ \<Rightarrow> Inl NonFinite))"

text \<open>The full path of one pixel: ray, sphere trace, shading, buffer write, cache store.\<close>

definition tracePixel :: "RenderLoop \<Rightarrow> FrameBuffer \<Rightarrow> nat \<Rightarrow> nat \<Rightarrow> error + (RenderLoop \<times> FrameBuffer)" where
  "tracePixel L fb x y =
     (let sc = scene L;
          bg = backgroundColor (environment sc);
          ray = createRay (camera sc) x y (FrameBuffer.width fb) (FrameBuffer.height fb);
          maxSteps = (if useAdaptiveQuality L
                      then getMaxSteps x y (FrameBuffer.width fb) (FrameBuffer.height fb) else 64)
      in case raymarch ray (world L) maxSteps of
           Inl e \<Rightarrow> Inl e
         | Inr Miss \<Rightarrow>
             Inr (L\<lparr>temporal := storeMiss (temporal L) x y, traces := traces L + 1\<rparr>,
                  set_cell fb x y (Fin 0x20) (Fin (chR bg)) (Fin (chG bg)) (Fin (chB bg)) (Fin 0))
         | Inr (Hit res) \<Rightarrow>
             (case shadeHit sc (glyphCache L) res of
                Inl e \<Rightarrow> Inl e
              | Inr (gc, cp, lit) \<Rightarrow>
                  Inr (L\<lparr>glyphCache := gc,
                         temporal := store (temporal L) x y (HitResult.distance res)
                                       (HitResult.entityIndex res) (HitResult.position res)
                                       (normal res),
                         traces := traces L + 1\<rparr>,
                       set_cell fb x y cp (Fin (litR lit)) (Fin (litG lit)) (Fin (litB lit))
                         (Fin (LightingResult.brightness lit)))))"

text \<open>The geometry-reuse path of one pixel: no sphere trace, no cache store.\<close>

definition reshadePixel ::
  "RenderLoop \<Rightarrow> FrameBuffer \<Rightarrow> nat \<Rightarrow> nat \<Rightarrow> Entity option \<Rightarrow> error + (RenderLoop \<times> FrameBuffer)" where
  "reshadePixel L fb x y entity =
     (case reshade (scene L) (glyphCache L) (getHitPos (temporal L) x y)
             (getNormal (temporal L) x y) entity of
        Inl e \<Rightarrow> Inl e
      | Inr (gc, cp, lit) \<Rightarrow>
          Inr (L\<lparr>glyphCache := gc\<rparr>,
               set_cell fb x y cp (Fin (litR lit)) (Fin (litG lit)) (Fin (litB lit))
                 (Fin (LightingResult.brightness lit))))"

text \<open>The body of the pixel loop after the deadline check.\<close>

definition renderPixel ::
  "RenderLoop \<Rightarrow> bool \<Rightarrow> bool \<Rightarrow> bool \<Rightarrow> FrameBuffer \<Rightarrow> nat \<Rightarrow> nat \<Rightarrow> error + (RenderLoop \<times> FrameBuffer)" where
  "renderPixel L camChanged anyMoving anyFlicker fb x y =
     (if useTemporalReuse L \<and> \<not> camChanged \<and> isValid (temporal L) x y
      then (case getEntityIndex (temporal L) x y of
              None \<Rightarrow> if anyFlicker then Inl TypeError else Inr (L, fb)
            | Some eIdx \<Rightarrow>
                if eIdx = -1
                then (if \<not> anyMoving then Inr (L, fb) else tracePixel L fb x y)
                else (let entity = entityAt (Scene.entities (scene L)) eIdx;
                          entityMoving = (case entity of None \<Rightarrow> False | Some e \<Rightarrow> entityMoves e)
                      in if \<not> entityMoving
                         then (if anyFlicker then reshadePixel L fb x y entity else Inr (L, fb))
                         else tracePixel L fb x y))
      else tracePixel L fb x y)"

text \<open>
  The inner loop over \<open>x\<close>.  \<open>late i\<close> says whether, at the deadline check made for pixel
  index \<open>i\<close>, more than \<open>FRAME_DEADLINE_MS\<close> have passed; the \<open>break\<close> ends the row.
\<close>

fun renderRow ::
  "(nat \<Rightarrow> bool) \<Rightarrow> bool \<Rightarrow> bool \<Rightarrow> bool \<Rightarrow> nat \<Rightarrow> nat list \<Rightarrow> RenderLoop \<times> FrameBuffer
     \<Rightarrow> error + (RenderLoop \<times> FrameBuffer)" where
  "renderRow late cc am af y [] st = Inr st"
| "renderRow late cc am af y (x # xs) st =
     (if useAdaptiveQuality (fst st) \<and> (x + y * FrameBuffer.width (snd st)) mod 64 = 0
         \<and> late (x + y * FrameBuffer.width (snd st))
      then Inr st
      else (case renderPixel (fst st) cc am af (snd st) x y of
              Inl e \<Rightarrow> Inl e
            | Inr st' \<Rightarrow> renderRow late cc am af y xs st'))"

fun renderRows ::
  "(nat \<Rightarrow> bool) \<Rightarrow> bool \<Rightarrow> bool \<Rightarrow> bool \<Rightarrow> nat list \<Rightarrow> nat list \<Rightarrow> RenderLoop \<times> FrameBuffer
     \<Rightarrow> error + (RenderLoop \<times> FrameBuffer)" where
  "renderRows late cc am af [] xs st = Inr st"
| "renderRows late cc am af (y # ys) xs st =
     (case renderRow late cc am af y xs st of
        Inl e \<Rightarrow> Inl e
      | Inr st' \<Rightarrow> renderRows late cc am af ys xs st')"

definition renderFrameSingleThread ::
  "(nat \<Rightarrow> bool) \<Rightarrow> RenderLoop \<Rightarrow> FrameBuffer \<Rightarrow> error + (RenderLoop \<times> FrameBuffer)" where
  "renderFrameSingleThread late L fb =
     (let sc = scene L;
          camPos = Camera.position (camera sc);
          camRot = Camera.rotation (camera sc);
          camChanged = cameraChanged (temporal L) camPos camRot;
          anyMoving = hasAnyMoving sc;
          anyFlicker = hasAnyFlicker sc
      in case renderRows late camChanged anyMoving anyFlicker
                [0..<FrameBuffer.height fb] [0..<FrameBuffer.width fb] (L, fb) of
           Inl e \<Rightarrow> Inl e
         | Inr (L', fb') \<Rightarrow>
             Inr (L'\<lparr>temporal := updateCamera (temporal L') camPos camRot\<rparr>, fb'))"

section \<open>Specification predicates\<close>

text \<open>Every cell list is free of duplicates and all its members satisfy \<open>P\<close>.\<close>

definition cellsOk :: "(nat \<Rightarrow> bool) \<Rightarrow> (32 word \<rightharpoonup> nat list) \<Rightarrow> bool" where
  "cellsOk P m \<longleftrightarrow> (\<forall>h arr. m h = Some arr \<longrightarrow> distinct arr \<and> (\<forall>j \<in> set arr. P j))"

text \<open>Index \<open>i\<close> names an entity that is neither a plane nor a generic SDF.\<close>

definition finiteEntity :: "Entity list \<Rightarrow> nat \<Rightarrow> bool" where
  "finiteEntity es i \<longleftrightarrow> i < length es \<and> \<not> infiniteType (geometry (es ! i))"

text \<open>
  The invariant of the grid with respect to the entity array \<open>es\<close>: cell lists are free of
  duplicates and hold finite entities only; every plane or generic SDF is a candidate at
  every point.
\<close>

definition gridInvariant :: "Entity list \<Rightarrow> SpatialGrid \<Rightarrow> bool" where
  "gridInvariant es g \<longleftrightarrow>
     cellsOk (finiteEntity es) (cells g) \<and>
     (\<forall>i < length es. infiniteType (geometry (es ! i)) \<longrightarrow>
        (\<forall>point. i \<in> set (getCandidates g point)))"

text \<open>
  From cache state \<open>c\<close> to \<open>c'\<close> the database and the table size are the same and no
  filled slot has become empty.
\<close>

definition keepsFilled :: "GlyphCache \<Rightarrow> GlyphCache \<Rightarrow> bool" where
  "keepsFilled c c' \<longleftrightarrow>
     db c' = db c \<and> length (cache c') = length (cache c) \<and>
     (\<forall>k < length (cache c). cache c ! k \<noteq> None \<longrightarrow> cache c' ! k \<noteq> None)"

text \<open>Every slot of the table holds a record.\<close>

definition fullyWarm :: "GlyphCache \<Rightarrow> bool" where
  "fullyWarm c \<longleftrightarrow> length (cache c) = CACHE_SIZE \<and> (\<forall>k < CACHE_SIZE. cache c ! k \<noteq> None)"

text \<open>What \<open>this.cache[key]\<close> reads: \<open>undefined\<close> (here \<open>None\<close>) outside the table.\<close>

definition cachedAt :: "GlyphCache \<Rightarrow> int \<Rightarrow> GlyphRecord option" where
  "cachedAt c key = (if key < 0 \<or> int (length (cache c)) \<le> key then None else cache c ! nat key)"

text \<open>All six arrays of the buffer have \<open>width * height\<close> elements, as allocated.\<close>

definition wf_fb :: "FrameBuffer \<Rightarrow> bool" where
  "wf_fb fb \<longleftrightarrow>
     length (chars fb) = FrameBuffer.width fb * FrameBuffer.height fb \<and>
     length (colorR fb) = FrameBuffer.width fb * FrameBuffer.height fb \<and>
     length (colorG fb) = FrameBuffer.width fb * FrameBuffer.height fb \<and>
     length (colorB fb) = FrameBuffer.width fb * FrameBuffer.height fb \<and>
     length (FrameBuffer.brightness fb) = FrameBuffer.width fb * FrameBuffer.height fb \<and>
     length (dirty fb) = FrameBuffer.width fb * FrameBuffer.height fb"

text \<open>The five stored values of cell \<open>idx\<close>, as the numbers a read returns.\<close>

definition cellValues :: "FrameBuffer \<Rightarrow> nat \<Rightarrow> number \<times> number \<times> number \<times> number \<times> number" where
  "cellValues fb idx =
     (Fin (real_of_int (uint (chars fb ! idx))), Fin (real_of_int (uint (colorR fb ! idx))),
      Fin (real_of_int (uint (colorG fb ! idx))), Fin (real_of_int (uint (colorB fb ! idx))),
      FrameBuffer.brightness fb ! idx)"

text \<open>
  The five arguments equal the stored values as \<open>===\<close> compares them: the same numbers,
  and the brightness is not NaN.
\<close>

definition sameAsStored ::
  "FrameBuffer \<Rightarrow> nat \<Rightarrow> number \<Rightarrow> number \<Rightarrow> number \<Rightarrow> number \<Rightarrow> number \<Rightarrow> bool" where
  "sameAsStored fb idx c r g b br \<longleftrightarrow> cellValues fb idx = (c, r, g, b, br) \<and> br \<noteq> NaN"

text \<open>
  Values the typed arrays hold without conversion: an integer code point in
  \<open>[0, 2^32)\<close>, integer channels in \<open>[0, 255]\<close>, a brightness that \<open>Float32Array\<close>
  returns as stored.
\<close>

definition storable :: "number \<Rightarrow> number \<Rightarrow> number \<Rightarrow> number \<Rightarrow> number \<Rightarrow> bool" where
  "storable c r g b br \<longleftrightarrow>
     Fin (real_of_int (uint (toUint32 c))) = c \<and> Fin (real_of_int (uint (toUint8 r))) = r \<and>
     Fin (real_of_int (uint (toUint8 g))) = g \<and> Fin (real_of_int (uint (toUint8 b))) = b \<and>
     fround br = br"

text \<open>Cell \<open>j\<close> is the same in both buffers, dirty flag included.\<close>

definition sameCell :: "FrameBuffer \<Rightarrow> FrameBuffer \<Rightarrow> nat \<Rightarrow> bool" where
  "sameCell fb fb' j \<longleftrightarrow>
     chars fb' ! j = chars fb ! j \<and> colorR fb' ! j = colorR fb ! j \<and>
     colorG fb' ! j = colorG fb ! j \<and> colorB fb' ! j = colorB fb ! j \<and>
     FrameBuffer.brightness fb' ! j = FrameBuffer.brightness fb ! j \<and>
     dirty fb' ! j = dirty fb ! j"

text \<open>All nine arrays of the temporal cache have \<open>width * height\<close> elements.\<close>

definition wf_tc :: "TemporalCache \<Rightarrow> bool" where
  "wf_tc tc \<longleftrightarrow>
     (let n = TemporalCache.width tc * TemporalCache.height tc
      in length (depth tc) = n \<and> length (TemporalCache.entityIndex tc) = n \<and>
         length (valid tc) = n \<and>
         length (hitPosX tc) = n \<and> length (hitPosY tc) = n \<and> length (hitPosZ tc) = n \<and>
         length (normalX tc) = n \<and> length (normalY tc) = n \<and> length (normalZ tc) = n)"

text \<open>
  What one pixel, one row or one scan leaves alone: the scene, the options, the sizes and
  the remembered camera; and no valid pixel becomes invalid.
\<close>

definition keeps :: "RenderLoop \<times> FrameBuffer \<Rightarrow> RenderLoop \<times> FrameBuffer \<Rightarrow> bool" where
  "keeps s s' \<longleftrightarrow>
     scene (fst s') = scene (fst s) \<and>
     useTemporalReuse (fst s') = useTemporalReuse (fst s) \<and>
     useAdaptiveQuality (fst s') = useAdaptiveQuality (fst s) \<and>
     FrameBuffer.width (snd s') = FrameBuffer.width (snd s) \<and>
     FrameBuffer.height (snd s') = FrameBuffer.height (snd s) \<and>
     TemporalCache.width (temporal (fst s')) = TemporalCache.width (temporal (fst s)) \<and>
     TemporalCache.height (temporal (fst s')) = TemporalCache.height (temporal (fst s)) \<and>
     prevCameraPos (temporal (fst s')) = prevCameraPos (temporal (fst s)) \<and>
     prevCameraRot (temporal (fst s')) = prevCameraRot (temporal (fst s)) \<and>
     wf_tc (temporal (fst s')) = wf_tc (temporal (fst s)) \<and>
     length (valid (temporal (fst s'))) = length (valid (temporal (fst s))) \<and>
     (\<forall>x y. isValid (temporal (fst s)) x y \<longrightarrow> isValid (temporal (fst s')) x y)"

section \<open>Example data\<close>

text \<open>Two parsed glyph rows that differ in coverage, complexity and horizontal symmetry.\<close>

definition glyphDot :: RawGlyph where
  "glyphDot =
     \<lparr>codePoint = 46, char = ''.'', coverage = 0.2, roundness = 0.5, complexity = 1,
      symmetryH = 0.25, symmetryV = 0.5, connectedComponents = 1, aspectRatio = 1,
      strokeWidthMedian = 0, strokeWidthVariance = 0, endpointCount = 0, junctionCount = 0,
      eulerNumber = 0\<rparr>"

definition glyphHash :: RawGlyph where
  "glyphHash =
     \<lparr>codePoint = 35, char = ''#'', coverage = 0.8, roundness = 0.5, complexity = 5,
      symmetryH = 0.75, symmetryV = 0.5, connectedComponents = 1, aspectRatio = 1,
      strokeWidthMedian = 0, strokeWidthVariance = 0, endpointCount = 0, junctionCount = 0,
      eulerNumber = 0\<rparr>"

text \<open>Two rows with one and the same raw coverage.\<close>

definition glyphComma :: RawGlyph where
  "glyphComma = glyphDot\<lparr>codePoint := 44, char := '','', complexity := 2\<rparr>"

definition coverageQuery :: "real \<Rightarrow> GlyphQueryParams" where
  "coverageQuery c =
     \<lparr>targetCoverage = c, targetRoundness = None, targetComplexity = None,
      GlyphQueryParams.glyphStyle = None\<rparr>"

definition styleQuery :: "GlyphStyle \<Rightarrow> GlyphQueryParams" where
  "styleQuery s =
     \<lparr>targetCoverage = 0.5, targetRoundness = None, targetComplexity = None,
      GlyphQueryParams.glyphStyle = Some s\<rparr>"

text \<open>
  Two loaded records that agree in everything but normalized complexity and horizontal
  symmetry.
\<close>

definition recordPlain :: GlyphRecord where
  "recordPlain = RawGlyph.extend glyphDot
     \<lparr>normalizedCoverage = 0.5, normalizedComplexity = 0, normalizedConnectedComponents = 0\<rparr>"

definition recordBusy :: GlyphRecord where
  "recordBusy = RawGlyph.extend (glyphDot\<lparr>symmetryH := 0.75\<rparr>)
     \<lparr>normalizedCoverage = 0.5, normalizedComplexity = 1, normalizedConnectedComponents = 0\<rparr>"

text \<open>The scene of the tests: a unit sphere at \<open>(0, 1, 0)\<close> and a ground plane.\<close>

definition sphereMaterial :: Material where
  "sphereMaterial =
     \<lparr>baseColor = \<lparr>chR = 255, chG = 120, chB = 50\<rparr>, Material.brightness = 1, emissive = None,
      roughness = 0.5, reflectivity = 0, transparency = None,
      Material.glyphStyle = None,
      motionBehavior = None\<rparr>"

definition unitSphere :: Entity where
  "unitSphere =
     \<lparr>Entity.entityId = ''sphere_1'',
      transform = \<lparr>Transform.position = vec3 0 1 0, rotation = vec3 0 0 0, scale = vec3 1 1 1\<rparr>,
      geometry = Sphere 1, Entity.material = sphereMaterial,
      velocity = None, angularVelocity = None\<rparr>"

definition groundPlane :: Entity where
  "groundPlane =
     \<lparr>Entity.entityId = ''ground'',
      transform = \<lparr>Transform.position = vec3 0 0 0, rotation = vec3 0 0 0, scale = vec3 1 1 1\<rparr>,
      geometry = Plane (vec3 0 1 0), Entity.material = sphereMaterial,
      velocity = None, angularVelocity = None\<rparr>"

definition testRay :: Ray where
  "testRay = \<lparr>origin = vec3 0 1 6, Ray.direction = vec3 0 0 (-1)\<rparr>"

text \<open>The cell table of the grid built for the sphere alone.\<close>

definition sphereCells :: "32 word \<rightharpoonup> nat list" where
  "sphereCells = fold (insertCell 0) (overlappedCells 2 unitSphere) Map.empty"

definition sphereWorld :: World where
  "sphereWorld =
     \<lparr>World.entities = [unitSphere],
      grid = \<lparr>cellSize = 2, cells = sphereCells, globalIndices = [],
              SpatialGrid.entities = [unitSphere]\<rparr>\<rparr>"

text \<open>A buffer of two cells after \<open>clearDirtyFlags\<close>: blanks, black, no dirty flag.\<close>

definition blankBuffer :: FrameBuffer where
  "blankBuffer = clearDirtyFlags (newFrameBuffer 2 1)"

text \<open>
  The blank buffer after \<open>set(1, 0, 65, 255, 128, 0, br)\<close> and \<open>clearDirtyFlags()\<close>: the
  steps of the repository's buffer test before it sets the same values again.
\<close>

definition paintedBuffer :: "real \<Rightarrow> FrameBuffer" where
  "paintedBuffer br =
     clearDirtyFlags (set_cell blankBuffer 1 0 (Fin 65) (Fin 255) (Fin 128) (Fin 0) (Fin br))"

text \<open>
  A render loop for the sphere alone, seen from \<open>(0, 2, 6)\<close>, on a buffer of two cells,
  with temporal reuse and without adaptive quality or glyph cache; a clock that never
  reaches the frame deadline; and the state after its first frame.
\<close>

definition demoScene :: Scene where
  "demoScene =
     \<lparr>time = 0,
      camera = \<lparr>Camera.position = vec3 0 2 6, Camera.rotation = vec3 0 0 0,
                fov = 60, near = 0.1, far = 100\<rparr>,
      environment = \<lparr>ambientLight = 0.2, backgroundColor = \<lparr>chR = 0, chG = 0, chB = 0\<rparr>,
                     fogDensity = None, fogColor = None, globalIllumination = None\<rparr>,
      lights = [],
      Scene.entities = [unitSphere]\<rparr>"

definition demoLoop :: RenderLoop where
  "demoLoop =
     \<lparr>scene = demoScene, world = sphereWorld, glyphCache = None,
      temporal = newTemporalCache 2 1,
      useTemporalReuse = True, useAdaptiveQuality = False, traces = 0\<rparr>"

definition demoBuffer :: FrameBuffer where
  "demoBuffer = newFrameBuffer 2 1"

definition noDeadline :: "nat \<Rightarrow> bool" where
  "noDeadline i = False"

definition demoLoopAfter :: RenderLoop where
  "demoLoopAfter =
     demoLoop\<lparr>temporal :=
                 updateCamera (storeMiss (storeMiss (newTemporalCache 2 1) 0 0) 1 0)
                   (vec3 0 2 6) (vec3 0 0 0),
               traces := 2\<rparr>"

section \<open>Properties of the adaptive quality controller\<close>

lemma adjust_target [simp]: "targetFrameTime (adjust q t) = targetFrameTime q"
  by (simp add: adjust_def)

lemma adjustAll_target [simp]: "targetFrameTime (adjustAll q ts) = targetFrameTime q"
  by (induction ts arbitrary: q) simp_all

lemma adjust_range:
  "1/2 \<le> currentScale q \<Longrightarrow> currentScale q \<le> 1 \<Longrightarrow>
   1/2 \<le> currentScale (adjust q t) \<and> currentScale (adjust q t) \<le> 1"
  by (auto simp: adjust_def minScale_def maxScale_def max_def min_def)

lemma adjustAll_range:
  "1/2 \<le> currentScale q \<Longrightarrow> currentScale q \<le> 1 \<Longrightarrow>
   1/2 \<le> currentScale (adjustAll q ts) \<and> currentScale (adjustAll q ts) \<le> 1"
proof (induction ts arbitrary: q)
  case Nil
  then show ?case by simp
next
  case (Cons t ts)
  from adjust_range [OF Cons.prems] Cons.IH [of "adjust q t"]
  show ?case by simp
qed

lemma max_floor_step: "0 \<le> b \<Longrightarrow> max (c::real) (max c (s - a) - b) = max c (s - a - b)"
  by (auto simp: max_def)

lemma min_ceiling_step: "0 \<le> b \<Longrightarrow> min (c::real) (min c (s + a) + b) = min c (s + a + b)"
  by (auto simp: min_def)

lemma adjustAll_slow:
  "1/2 \<le> currentScale q \<Longrightarrow> \<forall>t \<in> set ts. t > targetFrameTime q * 1.2 \<Longrightarrow>
   currentScale (adjustAll q ts) = max (1/2) (currentScale q - 0.05 * real (length ts))"
proof (induction ts arbitrary: q)
  case Nil
  then show ?case by simp
next
  case (Cons t ts)
  have step: "currentScale (adjust q t) = max (1/2) (currentScale q - 0.05)"
    using Cons.prems by (simp add: adjust_def minScale_def)
  have "currentScale (adjustAll (adjust q t) ts) =
        max (1/2) (currentScale (adjust q t) - 0.05 * real (length ts))"
    using Cons.prems by (intro Cons.IH) (simp_all add: step)
  also have "\<dots> = max (1/2) (currentScale q - 0.05 - 0.05 * real (length ts))"
    unfolding step by (rule max_floor_step) simp
  finally have "currentScale (adjustAll (adjust q t) ts) =
        max (1/2) (currentScale q - 0.05 - 0.05 * real (length ts))" .
  moreover have "currentScale q - 0.05 - 0.05 * real (length ts) =
        currentScale q - 0.05 * real (length (t # ts))"
    by (simp add: algebra_simps)
  ultimately show ?case by (simp only: adjustAll.simps)
qed

lemma adjustAll_fast:
  "0 \<le> targetFrameTime q \<Longrightarrow> currentScale q \<le> 1 \<Longrightarrow>
   \<forall>t \<in> set ts. t < targetFrameTime q * 0.8 \<Longrightarrow>
   currentScale (adjustAll q ts) = min 1 (currentScale q + 0.02 * real (length ts))"
proof (induction ts arbitrary: q)
  case Nil
  then show ?case by simp
next
  case (Cons t ts)
  have "\<not> t > targetFrameTime q * 1.2"
    using Cons.prems by auto
  then have step: "currentScale (adjust q t) = min 1 (currentScale q + 0.02)"
    using Cons.prems by (simp add: adjust_def maxScale_def)
  have "currentScale (adjustAll (adjust q t) ts) =
        min 1 (currentScale (adjust q t) + 0.02 * real (length ts))"
    using Cons.prems by (intro Cons.IH) (simp_all add: step)
  also have "\<dots> = min 1 (currentScale q + 0.02 + 0.02 * real (length ts))"
    unfolding step by (rule min_ceiling_step) simp
  finally have "currentScale (adjustAll (adjust q t) ts) =
        min 1 (currentScale q + 0.02 + 0.02 * real (length ts))" .
  moreover have "currentScale q + 0.02 + 0.02 * real (length ts) =
        currentScale q + 0.02 * real (length (t # ts))"
    by (simp add: algebra_simps)
  ultimately show ?case by (simp only: adjustAll.simps)
qed

lemma adjustAll_snoc: "adjustAll q (ts @ [t]) = adjust (adjustAll q ts) t"
  by (induction ts arbitrary: q) simp_all

lemma adjust_slow_strict:
  "t > targetFrameTime q * 1.2 \<Longrightarrow> 1/2 < currentScale q \<Longrightarrow>
   currentScale (adjust q t) < currentScale q"
  by (simp add: adjust_def minScale_def)

lemma adjust_fast_strict:
  "0 \<le> targetFrameTime q \<Longrightarrow> t < targetFrameTime q * 0.8 \<Longrightarrow> currentScale q < 1 \<Longrightarrow>
   currentScale (adjust q t) > currentScale q"
  by (auto simp: adjust_def maxScale_def)

text \<open>
  Claim C7.  With a non-negative frame-time target and a scale in \<open>[0.5, 1]\<close>, one call of
  \<open>adjust\<close> yields \<open>max 0.5 (s - 0.05)\<close> for a frame slower than 120 per cent of the target,
  \<open>min 1 (s + 0.02)\<close> for a frame faster than 80 per cent of it, and leaves the object
  unchanged otherwise.  Along a run of slow frames every adjustment strictly lowers the scale
  while it is above 0.5, and ten of them reach 0.5; along a run of fast frames every
  adjustment strictly raises it while it is below 1, and twenty-five of them reach 1; after
  any run of frames the scale is still in \<open>[0.5, 1]\<close>.
\<close>

theorem adjust_scale_control:
  assumes T: "0 \<le> targetFrameTime q"
    and lo: "1/2 \<le> currentScale q" and hi: "currentScale q \<le> 1"
  shows
    "(t > targetFrameTime q * 1.2 \<longrightarrow>
        currentScale (adjust q t) = max 0.5 (currentScale q - 0.05)) \<and>
     (t < targetFrameTime q * 0.8 \<longrightarrow>
        currentScale (adjust q t) = min 1.0 (currentScale q + 0.02)) \<and>
     (\<not> t > targetFrameTime q * 1.2 \<and> \<not> t < targetFrameTime q * 0.8 \<longrightarrow> adjust q t = q) \<and>
     ((\<forall>u \<in> set (ts @ [t]). u > targetFrameTime q * 1.2) \<and> 1/2 < currentScale (adjustAll q ts) \<longrightarrow>
        currentScale (adjustAll q (ts @ [t])) < currentScale (adjustAll q ts)) \<and>
     ((\<forall>u \<in> set ts. u > targetFrameTime q * 1.2) \<and> 10 \<le> length ts \<longrightarrow>
        currentScale (adjustAll q ts) = 0.5) \<and>
     ((\<forall>u \<in> set (ts @ [t]). u < targetFrameTime q * 0.8) \<and> currentScale (adjustAll q ts) < 1 \<longrightarrow>
        currentScale (adjustAll q (ts @ [t])) > currentScale (adjustAll q ts)) \<and>
     ((\<forall>u \<in> set ts. u < targetFrameTime q * 0.8) \<and> 25 \<le> length ts \<longrightarrow>
        currentScale (adjustAll q ts) = 1.0) \<and>
     0.5 \<le> currentScale (adjustAll q ts) \<and> currentScale (adjustAll q ts) \<le> 1.0"
proof -
  have c1: "t > targetFrameTime q * 1.2 \<longrightarrow>
        currentScale (adjust q t) = max 0.5 (currentScale q - 0.05)"
    by (simp add: adjust_def minScale_def)
  have c2: "t < targetFrameTime q * 0.8 \<longrightarrow>
        currentScale (adjust q t) = min 1.0 (currentScale q + 0.02)"
    using T by (auto simp: adjust_def maxScale_def)
  have c3: "\<not> t > targetFrameTime q * 1.2 \<and> \<not> t < targetFrameTime q * 0.8 \<longrightarrow> adjust q t = q"
    by (simp add: adjust_def)
  have c4: "(\<forall>u \<in> set (ts @ [t]). u > targetFrameTime q * 1.2) \<and> 1/2 < currentScale (adjustAll q ts) \<longrightarrow>
        currentScale (adjustAll q (ts @ [t])) < currentScale (adjustAll q ts)"
    using adjust_slow_strict [of "adjustAll q ts" t] by (simp add: adjustAll_snoc)
  have c5: "(\<forall>u \<in> set ts. u > targetFrameTime q * 1.2) \<and> 10 \<le> length ts \<longrightarrow>
        currentScale (adjustAll q ts) = 0.5"
  proof
    assume a: "(\<forall>u \<in> set ts. u > targetFrameTime q * 1.2) \<and> 10 \<le> length ts"
    then have "currentScale (adjustAll q ts) = max (1/2) (currentScale q - 0.05 * real (length ts))"
      using adjustAll_slow [OF lo, of ts] by blast
    moreover have "10 \<le> real (length ts)" using a by simp
    ultimately show "currentScale (adjustAll q ts) = 0.5" using hi by (simp add: max_def)
  qed
  have c6: "(\<forall>u \<in> set (ts @ [t]). u < targetFrameTime q * 0.8) \<and> currentScale (adjustAll q ts) < 1 \<longrightarrow>
        currentScale (adjustAll q (ts @ [t])) > currentScale (adjustAll q ts)"
    using adjust_fast_strict [of "adjustAll q ts" t] T by (simp add: adjustAll_snoc)
  have c7: "(\<forall>u \<in> set ts. u < targetFrameTime q * 0.8) \<and> 25 \<le> length ts \<longrightarrow>
        currentScale (adjustAll q ts) = 1.0"
  proof
    assume a: "(\<forall>u \<in> set ts. u < targetFrameTime q * 0.8) \<and> 25 \<le> length ts"
    then have "currentScale (adjustAll q ts) = min 1 (currentScale q + 0.02 * real (length ts))"
      using adjustAll_fast [OF T hi, of ts] by blast
    moreover have "25 \<le> real (length ts)" using a by simp
    ultimately show "currentScale (adjustAll q ts) = 1.0" using lo by (simp add: min_def)
  qed
  have c8: "0.5 \<le> currentScale (adjustAll q ts) \<and> currentScale (adjustAll q ts) \<le> 1.0"
    using adjustAll_range [OF lo hi, of ts] by simp
  from c1 c2 c3 c4 c5 c6 c7 c8 show ?thesis by blast
qed

theorem adjust_scale_control_witness:
  "0 \<le> targetFrameTime (newAdaptiveQuality 30) \<and>
   1/2 \<le> currentScale (newAdaptiveQuality 30) \<and> currentScale (newAdaptiveQuality 30) \<le> 1 \<and>
   50 > targetFrameTime (newAdaptiveQuality 30) * 1.2 \<and>
   currentScale (adjust (newAdaptiveQuality 30) 50) = 0.95 \<and>
   currentScale (adjustAll (newAdaptiveQuality 30) (replicate 10 50)) = 0.5 \<and>
   10 < targetFrameTime (newAdaptiveQuality 30) * 0.8 \<and>
   currentScale (adjustAll (adjustAll (newAdaptiveQuality 30) (replicate 10 50)) (replicate 25 10)) = 1"
proof -
  let ?q = "newAdaptiveQuality 30"
  let ?r = "adjustAll ?q (replicate 10 50)"
  have q: "0 \<le> targetFrameTime ?q" "1/2 \<le> currentScale ?q" "currentScale ?q \<le> 1"
    by (simp_all add: newAdaptiveQuality_def)
  have s: "50 > targetFrameTime ?q * 1.2" "10 < targetFrameTime ?q * 0.8"
    by (simp_all add: newAdaptiveQuality_def)
  have a: "currentScale (adjust ?q 50) = 0.95"
    using adjust_scale_control [OF q, of 50 "[]"] s by (simp add: newAdaptiveQuality_def)
  have b: "currentScale ?r = 0.5"
    using adjust_scale_control [OF q, of 50 "replicate 10 50"] s by simp
  have r: "0 \<le> targetFrameTime ?r" "1/2 \<le> currentScale ?r" "currentScale ?r \<le> 1"
    using q b by simp_all
  have c: "currentScale (adjustAll ?r (replicate 25 10)) = 1"
    using adjust_scale_control [OF r, of 10 "replicate 25 10"] s by simp
  from q s a b c show ?thesis by blast
qed

section \<open>Properties of the glyph database\<close>

lemma length_normalize_values [simp]: "length (normalize_values vs) = length vs"
  by (simp add: normalize_values_def Let_def)

lemma normalize_values_const:
  assumes "\<forall>v \<in> set vs. v = c"
  shows "normalize_values vs = replicate (length vs) 0"
proof (cases "vs = []")
  case True
  then show ?thesis by (simp add: normalize_values_def)
next
  case False
  then have "set vs = {c}" using assms by (cases vs) auto
  then have "Min (set vs) = c" "Max (set vs) = c" by simp_all
  then show ?thesis
    using False by (simp add: normalize_values_def map_replicate_const)
qed

lemma map_const_replicate:
  "\<forall>x \<in> set xs. f x = c \<Longrightarrow> map f xs = replicate (length xs) c"
  by (induction xs) simp_all

lemma loadGlyphs_set:
  "set (loadGlyphs parsed) =
     (\<lambda>i. withNormalized (normalize_values (map coverage parsed))
                          (normalize_values (map complexity parsed))
                          (normalize_values (map connectedComponents parsed)) i (parsed ! i))
       ` {..<length parsed}"
proof -
  have "set (enumerate 0 parsed) = (\<lambda>i. (i, parsed ! i)) ` {..<length parsed}"
    by (auto simp: in_set_enumerate_eq image_iff)
  then show ?thesis
    by (simp add: loadGlyphs_def Let_def image_image)
qed

lemma length_loadGlyphs [simp]: "length (loadGlyphs parsed) = length parsed"
  by (simp add: loadGlyphs_def Let_def)

lemma withNormalized_sel [simp]:
  "normalizedCoverage (withNormalized a b c i g) = a ! i"
  "normalizedComplexity (withNormalized a b c i g) = b ! i"
  "normalizedConnectedComponents (withNormalized a b c i g) = c ! i"
  by (simp_all add: withNormalized_def RawGlyph.defs)

text \<open>
  Claim C10.  When all parsed rows carry one and the same raw coverage (complexity,
  connected-component count), every record of the loaded set has normalized coverage
  (complexity, connected-component count) 0, and the loaded set has as many records as rows.
\<close>

theorem normalize_constant_feature_zero:
  "length (loadGlyphs parsed) = length parsed \<and>
   ((\<forall>g \<in> set parsed. coverage g = c) \<longrightarrow>
      (\<forall>r \<in> set (loadGlyphs parsed). normalizedCoverage r = 0)) \<and>
   ((\<forall>g \<in> set parsed. complexity g = c) \<longrightarrow>
      (\<forall>r \<in> set (loadGlyphs parsed). normalizedComplexity r = 0)) \<and>
   ((\<forall>g \<in> set parsed. connectedComponents g = c) \<longrightarrow>
      (\<forall>r \<in> set (loadGlyphs parsed). normalizedConnectedComponents r = 0))"
proof -
  have key: "\<forall>r \<in> set (loadGlyphs parsed). sel r = 0"
    if all: "\<forall>g \<in> set parsed. f g = c"
      and sel: "\<And>a b d i g. i < length parsed \<Longrightarrow>
                 sel (withNormalized (normalize_values (map coverage parsed))
                        (normalize_values (map complexity parsed))
                        (normalize_values (map connectedComponents parsed)) i g)
                 = normalize_values (map f parsed) ! i"
    for f :: "RawGlyph \<Rightarrow> real" and sel :: "GlyphRecord \<Rightarrow> real"
  proof -
    have "normalize_values (map f parsed) = replicate (length parsed) 0"
      using normalize_values_const [of "map f parsed" c] all by simp
    then show ?thesis
      by (auto simp: loadGlyphs_set sel)
  qed
  have "(\<forall>g \<in> set parsed. coverage g = c) \<longrightarrow>
          (\<forall>r \<in> set (loadGlyphs parsed). normalizedCoverage r = 0)"
    using key [of coverage normalizedCoverage] by simp
  moreover have "(\<forall>g \<in> set parsed. complexity g = c) \<longrightarrow>
          (\<forall>r \<in> set (loadGlyphs parsed). normalizedComplexity r = 0)"
    using key [of complexity normalizedComplexity] by simp
  moreover have "(\<forall>g \<in> set parsed. connectedComponents g = c) \<longrightarrow>
          (\<forall>r \<in> set (loadGlyphs parsed). normalizedConnectedComponents r = 0)"
    using key [of connectedComponents normalizedConnectedComponents] by simp
  ultimately show ?thesis by simp
qed

theorem normalize_constant_feature_zero_witness:
  "coverage glyphDot = 0.2 \<and> coverage glyphComma = 0.2 \<and>
   map normalizedCoverage (loadGlyphs [glyphDot, glyphComma]) = [0, 0]"
proof -
  have h: "\<forall>g \<in> set [glyphDot, glyphComma]. coverage g = 0.2"
    by (simp add: glyphDot_def glyphComma_def)
  from normalize_constant_feature_zero [of "[glyphDot, glyphComma]" "0.2"] h
  have "length (loadGlyphs [glyphDot, glyphComma]) = 2"
    and "\<forall>r \<in> set (loadGlyphs [glyphDot, glyphComma]). normalizedCoverage r = 0"
    by simp_all
  then have "map normalizedCoverage (loadGlyphs [glyphDot, glyphComma]) = [0, 0]"
    using map_const_replicate [of "loadGlyphs [glyphDot, glyphComma]" normalizedCoverage 0]
    by (simp add: numeral_2_eq_2)
  then show ?thesis
    by (simp add: glyphDot_def glyphComma_def)
qed

subsection \<open>Style bias\<close>

text \<open>
  Claim C2 as stated fails: with style \<open>noise\<close> the record of lower normalized complexity
  gets the higher score, and with style \<open>block\<close> the record of lower horizontal symmetry
  gets the higher score, the other three terms being equal.
\<close>

theorem style_bias_counterexample:
  "coverageTerm (styleQuery Noise) recordPlain = coverageTerm (styleQuery Noise) recordBusy \<and>
   roundnessTerm (styleQuery Noise) recordPlain = roundnessTerm (styleQuery Noise) recordBusy \<and>
   complexityTerm (styleQuery Noise) recordPlain = complexityTerm (styleQuery Noise) recordBusy \<and>
   normalizedComplexity recordPlain < normalizedComplexity recordBusy \<and>
   \<not> score (styleQuery Noise) recordPlain < score (styleQuery Noise) recordBusy \<and>
   coverageTerm (styleQuery Block) recordPlain = coverageTerm (styleQuery Block) recordBusy \<and>
   roundnessTerm (styleQuery Block) recordPlain = roundnessTerm (styleQuery Block) recordBusy \<and>
   complexityTerm (styleQuery Block) recordPlain = complexityTerm (styleQuery Block) recordBusy \<and>
   symmetryH recordPlain < symmetryH recordBusy \<and>
   \<not> score (styleQuery Block) recordPlain < score (styleQuery Block) recordBusy"
  by (simp add: score_def styleBias_def coverageTerm_def roundnessTerm_def complexityTerm_def
      styleQuery_def recordPlain_def recordBusy_def RawGlyph.defs glyphDot_def)

text \<open>
  Claim C2, amended.  For two records whose coverage, roundness and complexity terms are
  equal, style \<open>noise\<close> gives the lower score to the record of \<^emph>\<open>higher\<close> normalized
  complexity and style \<open>block\<close> gives the lower score to the record of \<^emph>\<open>higher\<close>
  horizontal symmetry; the two scores differ by 1.5 times the difference of that feature.
\<close>

theorem style_bias_noise_block:
  assumes "coverageTerm p g1 = coverageTerm p g2"
    and "roundnessTerm p g1 = roundnessTerm p g2"
    and "complexityTerm p g1 = complexityTerm p g2"
  shows
    "(GlyphQueryParams.glyphStyle p = Some Noise \<longrightarrow>
        score p g1 - score p g2 = 1.5 * (normalizedComplexity g2 - normalizedComplexity g1) \<and>
        (score p g1 < score p g2 \<longleftrightarrow> normalizedComplexity g2 < normalizedComplexity g1)) \<and>
     (GlyphQueryParams.glyphStyle p = Some Block \<longrightarrow>
        score p g1 - score p g2 = 1.5 * (symmetryH g2 - symmetryH g1) \<and>
        (score p g1 < score p g2 \<longleftrightarrow> symmetryH g2 < symmetryH g1))"
  using assms by (auto simp: score_def styleBias_def field_simps)

theorem style_bias_noise_block_witness:
  "coverageTerm (styleQuery Noise) recordBusy = coverageTerm (styleQuery Noise) recordPlain \<and>
   roundnessTerm (styleQuery Noise) recordBusy = roundnessTerm (styleQuery Noise) recordPlain \<and>
   complexityTerm (styleQuery Noise) recordBusy = complexityTerm (styleQuery Noise) recordPlain \<and>
   GlyphQueryParams.glyphStyle (styleQuery Noise) = Some Noise \<and>
   normalizedComplexity recordPlain < normalizedComplexity recordBusy \<and>
   score (styleQuery Noise) recordBusy < score (styleQuery Noise) recordPlain \<and>
   coverageTerm (styleQuery Block) recordBusy = coverageTerm (styleQuery Block) recordPlain \<and>
   roundnessTerm (styleQuery Block) recordBusy = roundnessTerm (styleQuery Block) recordPlain \<and>
   complexityTerm (styleQuery Block) recordBusy = complexityTerm (styleQuery Block) recordPlain \<and>
   GlyphQueryParams.glyphStyle (styleQuery Block) = Some Block \<and>
   symmetryH recordPlain < symmetryH recordBusy \<and>
   score (styleQuery Block) recordBusy < score (styleQuery Block) recordPlain"
proof -
  have n: "coverageTerm (styleQuery Noise) recordBusy = coverageTerm (styleQuery Noise) recordPlain"
    "roundnessTerm (styleQuery Noise) recordBusy = roundnessTerm (styleQuery Noise) recordPlain"
    "complexityTerm (styleQuery Noise) recordBusy = complexityTerm (styleQuery Noise) recordPlain"
    by (simp_all add: coverageTerm_def roundnessTerm_def complexityTerm_def styleQuery_def
        recordPlain_def recordBusy_def RawGlyph.defs glyphDot_def)
  have b: "coverageTerm (styleQuery Block) recordBusy = coverageTerm (styleQuery Block) recordPlain"
    "roundnessTerm (styleQuery Block) recordBusy = roundnessTerm (styleQuery Block) recordPlain"
    "complexityTerm (styleQuery Block) recordBusy = complexityTerm (styleQuery Block) recordPlain"
    by (simp_all add: coverageTerm_def roundnessTerm_def complexityTerm_def styleQuery_def
        recordPlain_def recordBusy_def RawGlyph.defs glyphDot_def)
  have s: "GlyphQueryParams.glyphStyle (styleQuery Noise) = Some Noise" "GlyphQueryParams.glyphStyle (styleQuery Block) = Some Block"
    by (simp_all add: styleQuery_def)
  have v: "normalizedComplexity recordPlain < normalizedComplexity recordBusy"
    "symmetryH recordPlain < symmetryH recordBusy"
    by (simp_all add: recordPlain_def recordBusy_def RawGlyph.defs glyphDot_def)
  from style_bias_noise_block [OF n] style_bias_noise_block [OF b] n b s v
  show ?thesis by blast
qed

subsection \<open>Fallback of the coverage window\<close>

text \<open>
  Claim C3 at a concrete input.  The two rows load as records of normalized coverage 0 and 1.
  For target coverage 0.3 neither lies in \<open>[0.2, 0.4]\<close>; \<open>queryBest\<close> returns the record of
  coverage 1 (the first one not below the window), although the record of coverage 0 is
  nearer to the target.
\<close>

theorem queryBest_fallback_not_nearest:
  "map normalizedCoverage (loadGlyphs [glyphDot, glyphHash]) = [0, 1] \<and>
   map codePoint (loadGlyphs [glyphDot, glyphHash]) = [46, 35] \<and>
   map_sum id codePoint (queryBest (loadGlyphs [glyphDot, glyphHash]) (coverageQuery 0.3)) = Inr 35 \<and>
   map_sum id normalizedCoverage (queryBest (loadGlyphs [glyphDot, glyphHash]) (coverageQuery 0.3)) = Inr 1 \<and>
   \<bar>0 - targetCoverage (coverageQuery 0.3)\<bar> < \<bar>1 - targetCoverage (coverageQuery 0.3)\<bar>"
  by code_simp

section \<open>Properties of the spatial grid\<close>

lemma cellsOk_empty: "cellsOk P Map.empty"
  by (simp add: cellsOk_def)

lemma cellsOk_insertCell:
  assumes "cellsOk P m" and "P i"
  shows "cellsOk P (insertCell i c m)"
proof -
  obtain cx cy cz where c: "c = (cx, cy, cz)" by (cases c) auto
  show ?thesis
    using assms unfolding cellsOk_def insertCell_def c
    by (auto simp: Let_def split: option.splits if_splits)
qed

lemma cellsOk_fold_insertCell:
  "cellsOk P m \<Longrightarrow> P i \<Longrightarrow> cellsOk P (fold (insertCell i) cs m)"
  by (induction cs arbitrary: m) (simp_all add: cellsOk_insertCell)

lemma rebuildStep_cells:
  assumes "cellsOk P (fst acc)" and "\<not> infiniteType (geometry e) \<Longrightarrow> P i"
  shows "cellsOk P (fst (rebuildStep cs (i, e) acc))"
  using assms by (simp add: rebuildStep_def cellsOk_fold_insertCell)

lemma rebuildStep_globals:
  "snd (rebuildStep cs (i, e) acc) = snd acc @ (if infiniteType (geometry e) then [i] else [])"
  by (simp add: rebuildStep_def)

lemma fold_rebuildStep_cells:
  assumes "cellsOk P (fst acc)"
    and "\<forall>(i, e) \<in> set ies. \<not> infiniteType (geometry e) \<longrightarrow> P i"
  shows "cellsOk P (fst (fold (rebuildStep cs) ies acc))"
  using assms
proof (induction ies arbitrary: acc)
  case Nil
  then show ?case by simp
next
  case (Cons ie ies)
  obtain i e where ie: "ie = (i, e)" by (cases ie) auto
  have "cellsOk P (fst (rebuildStep cs (i, e) acc))"
    using Cons.prems ie by (intro rebuildStep_cells) auto
  then show ?case
    using Cons.prems ie by (simp add: Cons.IH)
qed

lemma fold_rebuildStep_globals:
  "snd (fold (rebuildStep cs) ies acc) =
     snd acc @ map fst (filter (\<lambda>ie. infiniteType (geometry (snd ie))) ies)"
proof (induction ies arbitrary: acc)
  case Nil
  then show ?case by simp
next
  case (Cons ie ies)
  obtain i e where ie: "ie = (i, e)" by (cases ie) auto
  show ?case
    by (simp add: Cons.IH ie rebuildStep_globals)
qed

lemma enumerate_infinite_indices:
  "set (map fst (filter (\<lambda>ie. infiniteType (geometry (snd ie))) (enumerate 0 es))) =
     {i. i < length es \<and> infiniteType (geometry (es ! i))}"
  by (auto simp: in_set_enumerate_eq image_iff)

lemma rebuild_invariant:
  assumes "cellSize g \<noteq> 0"
  shows "\<exists>g'. rebuild g = Inr g' \<and> gridInvariant (SpatialGrid.entities g) g'"
proof -
  let ?es = "SpatialGrid.entities g"
  let ?acc = "fold (rebuildStep (cellSize g)) (enumerate 0 ?es) (Map.empty, [])"
  let ?g' = "g\<lparr>cells := fst ?acc, globalIndices := snd ?acc\<rparr>"
  have r: "rebuild g = Inr ?g'"
    using assms by (simp add: rebuild_def Let_def)
  have "\<forall>(i, e) \<in> set (enumerate 0 ?es).
          \<not> infiniteType (geometry e) \<longrightarrow> finiteEntity ?es i"
    by (auto simp: in_set_enumerate_eq finiteEntity_def)
  then have c: "cellsOk (finiteEntity ?es) (fst ?acc)"
    by (intro fold_rebuildStep_cells) (simp_all add: cellsOk_empty)
  have "set (snd ?acc) = {i. i < length ?es \<and> infiniteType (geometry (?es ! i))}"
    by (simp add: fold_rebuildStep_globals enumerate_infinite_indices del: set_map)
  then have "\<forall>i < length ?es. infiniteType (geometry (?es ! i)) \<longrightarrow>
               (\<forall>point. i \<in> set (getCandidates ?g' point))"
    by (simp add: getCandidates_def Let_def)
  with c have "gridInvariant ?es ?g'"
    by (simp add: gridInvariant_def)
  with r show ?thesis by blast
qed

text \<open>
  Claim C8.  Construction, \<open>rebuild\<close> and \<open>updateEntities\<close> (with a cell size other than
  0) return a grid in which every cell list is free of duplicates and holds only indices of
  entities that are neither planes nor generic SDFs, and in which \<open>getCandidates\<close>
  returns, for every point, every index of a plane or generic-SDF entity.
\<close>

theorem grid_rebuild_invariant:
  "(cellSize g \<noteq> 0 \<longrightarrow> (\<exists>g'. rebuild g = Inr g' \<and> gridInvariant (SpatialGrid.entities g) g')) \<and>
   (cs \<noteq> 0 \<longrightarrow> (\<exists>g'. newSpatialGrid es cs = Inr g' \<and> gridInvariant es g')) \<and>
   (cellSize g \<noteq> 0 \<longrightarrow> (\<exists>g'. updateEntities g es = Inr g' \<and> gridInvariant es g'))"
proof -
  have a: "cellSize g \<noteq> 0 \<longrightarrow> (\<exists>g'. rebuild g = Inr g' \<and> gridInvariant (SpatialGrid.entities g) g')"
    using rebuild_invariant [of g] by blast
  have b: "cs \<noteq> 0 \<longrightarrow> (\<exists>g'. newSpatialGrid es cs = Inr g' \<and> gridInvariant es g')"
    using rebuild_invariant [of "\<lparr>cellSize = cs, cells = Map.empty, globalIndices = [], SpatialGrid.entities = es\<rparr>"]
    by (simp add: newSpatialGrid_def)
  have c: "cellSize g \<noteq> 0 \<longrightarrow> (\<exists>g'. updateEntities g es = Inr g' \<and> gridInvariant es g')"
    using rebuild_invariant [of "g\<lparr>SpatialGrid.entities := es\<rparr>"]
    by (simp add: updateEntities_def)
  from a b c show ?thesis by blast
qed

theorem grid_rebuild_invariant_witness:
  "(2::real) \<noteq> 0 \<and>
   (\<exists>g'. newSpatialGrid [unitSphere, groundPlane] 2 = Inr g' \<and>
         1 \<in> set (getCandidates g' (vec3 0 1 6)) \<and>
         1 \<in> set (getCandidates g' (vec3 50 50 50)))"
proof -
  from grid_rebuild_invariant [of _ 2 "[unitSphere, groundPlane]"]
  obtain g' where g: "newSpatialGrid [unitSphere, groundPlane] 2 = Inr g'"
    and inv: "gridInvariant [unitSphere, groundPlane] g'"
    by auto
  have "infiniteType (geometry ([unitSphere, groundPlane] ! 1))"
    by (simp add: groundPlane_def)
  with inv have "\<forall>point. 1 \<in> set (getCandidates g' point)"
    unfolding gridInvariant_def by (metis One_nat_def length_Cons lessI list.size(3))
  with g show ?thesis by auto
qed

section \<open>Properties of the world sampler and the sphere tracer\<close>

lemma unitSphere_sel:
  "geometry unitSphere = Sphere 1"
  "transform unitSphere = \<lparr>Transform.position = vec3 0 1 0, rotation = vec3 0 0 0, scale = vec3 1 1 1\<rparr>"
  "Entity.material unitSphere = sphereMaterial"
  "Entity.entityId unitSphere = ''sphere_1''"
  by (simp_all add: unitSphere_def)

lemma overlappedCells_unitSphere:
  "overlappedCells 2 unitSphere =
     [(-1,0,-1),(-1,0,0),(-1,1,-1),(-1,1,0),(0,0,-1),(0,0,0),(0,1,-1),(0,1,0)]"
  by (simp add: overlappedCells_def unitSphere_sel vec3_def sub_v_def add_v_def Let_def upto.simps)

lemma newWorld_unitSphere: "newWorld [unitSphere] = Inr sphereWorld"
  by (simp add: newWorld_def newSpatialGrid_def rebuild_def rebuildStep_def unitSphere_sel
      enumerate_eq_zip upt_rec sphereCells_def sphereWorld_def)

lemma sphereCells_at:
  "sphereCells (hashCell 0 0 0) = Some [0]"
  "sphereCells (hashCell 0 1 0) = Some [0]"
  "sphereCells (hashCell 0 0 3) = None"
  by (simp_all add: sphereCells_def overlappedCells_unitSphere insertCell_def hashCell_def)

lemma sphereWorld_candidates:
  "getCandidates (grid sphereWorld) (vec3 0 1 0) = [0]"
  "getCandidates (grid sphereWorld) (vec3 0 2 0) = [0]"
  "getCandidates (grid sphereWorld) (vec3 0 3 0) = [0]"
  "getCandidates (grid sphereWorld) (vec3 0 1 6) = []"
  by (simp_all add: getCandidates_def sphereWorld_def vec3_def Let_def sphereCells_at)

lemma sphere_local_distance:
  "evaluateSDF (worldToLocal (vec3 a b c) (transform unitSphere)) (geometry unitSphere) =
     Fin (sqrt (a * a + (b - 1) * (b - 1) + c * c) - 1)"
  by (simp add: unitSphere_sel worldToLocal_def vec3_def sub_v_def sdSphere_def length_v_def Let_def)

lemma sphereWorld_sampleStep:
  "sampleStep sphereWorld (vec3 a b c) 0 closest =
     (if num_less (Fin (sqrt (a * a + (b - 1) * (b - 1) + c * c) - 1)) (SampleResult.distance closest)
      then Inr \<lparr>SampleResult.distance = Fin (sqrt (a * a + (b - 1) * (b - 1) + c * c) - 1),
                SampleResult.material = sphereMaterial,
                SampleResult.entityId = ''sphere_1'', SampleResult.entityIndex = 0\<rparr>
      else Inr closest)"
proof -
  have e: "World.entities sphereWorld = [unitSphere]"
    by (simp add: sphereWorld_def)
  have s: "min (min (vx (scale (transform unitSphere))) (vy (scale (transform unitSphere))))
               (vz (scale (transform unitSphere))) = 1"
    by (simp add: unitSphere_sel vec3_def)
  show ?thesis
    unfolding sampleStep_def e
    by (simp add: Let_def sphere_local_distance s unitSphere_sel(3,4))
qed

lemma testRay_start: "add_v (origin testRay) (mul_v (Ray.direction testRay) 0) = vec3 0 1 6"
  by (simp add: testRay_def add_v_def mul_v_def vec3_def)

lemma sphereWorld_sample_origin:
  "sample sphereWorld (vec3 0 1 6) =
     Inr \<lparr>SampleResult.distance = PInf, SampleResult.material = EMPTY_MATERIAL,
          SampleResult.entityId = '''', SampleResult.entityIndex = -1\<rparr>"
  by (simp add: sample_def sphereWorld_candidates)

lemma march_sphereWorld_first: "march testRay sphereWorld (Suc n) 0 = Inr Miss"
  by (simp add: Let_def testRay_start sphereWorld_sample_origin HIT_THRESHOLD_def)

text \<open>
  Claim C5.  In the world built from the single unit sphere at \<open>(0, 1, 0)\<close>, \<open>sample\<close>
  returns distance \<open>-1\<close> at \<open>(0, 1, 0)\<close>, \<open>0\<close> at \<open>(0, 2, 0)\<close> and \<open>1\<close> at
  \<open>(0, 3, 0)\<close>.
\<close>

theorem sample_single_sphere:
  "map_sum id SampleResult.distance (sampleScene [unitSphere] (vec3 0 1 0)) = Inr (Fin (-1)) \<and>
   map_sum id SampleResult.distance (sampleScene [unitSphere] (vec3 0 2 0)) = Inr (Fin 0) \<and>
   map_sum id SampleResult.distance (sampleScene [unitSphere] (vec3 0 3 0)) = Inr (Fin 1)"
  by (simp add: sampleScene_def newWorld_unitSphere sample_def sphereWorld_candidates
      sphereWorld_sampleStep)

text \<open>
  Claim C1 at its own input.  The ray starts at \<open>(0, 1, 6)\<close>, in grid cell \<open>(0, 0, 3)\<close>.
  The sphere's box reaches the cells with \<open>z\<close> coordinate \<open>-1\<close> and \<open>0\<close> only, so the
  first sample has no candidate and returns \<open>Infinity\<close>; the ray parameter becomes
  infinite, exceeds \<open>MAX_DISTANCE\<close>, and \<open>raymarch\<close> reports a miss.
\<close>

theorem raymarch_single_sphere_misses:
  "map_sum id SampleResult.distance (sampleScene [unitSphere] (origin testRay)) = Inr PInf \<and>
   raymarchScene [unitSphere] testRay = Inr Miss"
proof -
  have steps: "DEFAULT_MAX_STEPS = Suc 63"
    by (simp add: DEFAULT_MAX_STEPS_def)
  have "march testRay sphereWorld DEFAULT_MAX_STEPS 0 = Inr Miss"
    unfolding steps by (rule march_sphereWorld_first)
  then have "raymarchScene [unitSphere] testRay = Inr Miss"
    by (simp add: raymarchScene_def newWorld_unitSphere raymarch_def)
  moreover have "map_sum id SampleResult.distance (sampleScene [unitSphere] (origin testRay)) = Inr PInf"
    by (simp add: sampleScene_def newWorld_unitSphere testRay_def sphereWorld_sample_origin)
  ultimately show ?thesis by simp
qed

section \<open>Properties of the glyph cache\<close>

lemma queryBest_total: "glyphs \<noteq> [] \<Longrightarrow> \<exists>r. queryBest glyphs p = Inr r"
  by (simp add: queryBest_def Let_def)

lemma keepsFilled_refl: "keepsFilled c c"
  by (simp add: keepsFilled_def)

lemma keepsFilled_trans: "keepsFilled a b \<Longrightarrow> keepsFilled b c \<Longrightarrow> keepsFilled a c"
  by (simp add: keepsFilled_def)

lemma select_fills:
  assumes "db c \<noteq> []"
  shows "\<exists>res c'. select c p = Inr (res, c') \<and> keepsFilled c c' \<and>
           (0 \<le> buildKey p \<and> buildKey p < int (length (cache c)) \<longrightarrow>
              cache c' ! nat (buildKey p) \<noteq> None)"
proof -
  obtain r where r: "queryBest (db c) p = Inr r"
    using queryBest_total [OF assms] by blast
  show ?thesis
  proof (cases "buildKey p < 0 \<or> int (length (cache c)) \<le> buildKey p")
    case True
    then show ?thesis
      by (auto simp: select_def keepsFilled_def)
  next
    case False
    then have k: "nat (buildKey p) < length (cache c)" by linarith
    show ?thesis
    proof (cases "cache c ! nat (buildKey p)")
      case None
      then show ?thesis
        using False k r by (auto simp: select_def keepsFilled_def nth_list_update)
    next
      case (Some a)
      then show ?thesis
        using False by (auto simp: select_def keepsFilled_def)
    qed
  qed
qed

lemma selectAll_fills:
  assumes "db c \<noteq> []"
  shows "\<exists>c'. selectAll c ps = Inr c' \<and> keepsFilled c c' \<and>
           (\<forall>p \<in> set ps. 0 \<le> buildKey p \<and> buildKey p < int (length (cache c)) \<longrightarrow>
              cache c' ! nat (buildKey p) \<noteq> None)"
  using assms
proof (induction ps arbitrary: c)
  case Nil
  then show ?case by (simp add: keepsFilled_refl)
next
  case (Cons p ps)
  from select_fills [OF Cons.prems, of p]
  obtain res c1 where s: "select c p = Inr (res, c1)" and k1: "keepsFilled c c1"
    and f1: "0 \<le> buildKey p \<and> buildKey p < int (length (cache c)) \<longrightarrow>
               cache c1 ! nat (buildKey p) \<noteq> None"
    by blast
  have d1: "db c1 \<noteq> []" using k1 Cons.prems by (simp add: keepsFilled_def)
  from Cons.IH [OF d1]
  obtain c2 where a: "selectAll c1 ps = Inr c2" and k2: "keepsFilled c1 c2"
    and f2: "\<forall>q \<in> set ps. 0 \<le> buildKey q \<and> buildKey q < int (length (cache c1)) \<longrightarrow>
               cache c2 ! nat (buildKey q) \<noteq> None"
    by blast
  have len: "length (cache c1) = length (cache c)" using k1 by (simp add: keepsFilled_def)
  have "0 \<le> buildKey p \<and> buildKey p < int (length (cache c)) \<longrightarrow>
          cache c2 ! nat (buildKey p) \<noteq> None"
  proof
    assume b: "0 \<le> buildKey p \<and> buildKey p < int (length (cache c))"
    then have "nat (buildKey p) < length (cache c1)" using len by linarith
    moreover have "cache c1 ! nat (buildKey p) \<noteq> None" using f1 b by blast
    ultimately show "cache c2 ! nat (buildKey p) \<noteq> None"
      using k2 by (simp add: keepsFilled_def)
  qed
  with f2 len have "\<forall>q \<in> set (p # ps). 0 \<le> buildKey q \<and> buildKey q < int (length (cache c)) \<longrightarrow>
               cache c2 ! nat (buildKey q) \<noteq> None"
    by simp
  moreover have "selectAll c (p # ps) = Inr c2" using s a by simp
  moreover have "keepsFilled c c2" using k1 k2 by (rule keepsFilled_trans)
  ultimately show ?case by blast
qed

lemma styleToIndex_styleOfIndex: "si < 9 \<Longrightarrow> styleToIndex (styleOfIndex si) = int si"
proof -
  assume "si < 9"
  then consider "si = 0" | "si = 1" | "si = 2" | "si = 3" | "si = 4" | "si = 5"
    | "si = 6" | "si = 7" | "si = 8"
    by linarith
  then show ?thesis by cases simp_all
qed

lemma buildKey_warmupQuery:
  assumes "si < 9" "bb < 32" "rb < 8" "cb < 8"
  shows "buildKey (warmupQuery si bb rb cb) = int bb + int rb * 32 + int cb * 256 + int si * 2048"
proof -
  have "\<lfloor>real bb / 31 * 31\<rfloor> = int bb" "\<lfloor>real rb / 7 * 7\<rfloor> = int rb" "\<lfloor>real cb / 7 * 7\<rfloor> = int cb"
    by simp_all
  then show ?thesis
    using assms
    by (simp add: buildKey_def warmupQuery_def BRIGHTNESS_BUCKETS_def ROUNDNESS_BUCKETS_def
        COMPLEXITY_BUCKETS_def styleToIndex_styleOfIndex del: styleOfIndex.simps)
qed

lemma warmupQuery_mem:
  assumes "si < 9" "bb < 32" "rb < 8" "cb < 8"
  shows "warmupQuery si bb rb cb \<in> set warmupQueries"
proof -
  have "\<exists>x \<in> {0..<9}. \<exists>xa \<in> {0..<32}. \<exists>xb \<in> {0..<8}.
          warmupQuery si bb rb cb \<in> warmupQuery x xa xb ` {0..<8}"
    using assms
    by (intro bexI [of _ si] bexI [of _ bb] bexI [of _ rb] image_eqI [of _ _ cb]) simp_all
  then show ?thesis
    by (simp add: warmupQueries_def BRIGHTNESS_BUCKETS_def ROUNDNESS_BUCKETS_def
        COMPLEXITY_BUCKETS_def STYLE_COUNT_def del: upt_rec_numeral)
qed

lemma key_decomposition:
  "k mod 32 + (k div 32) mod 8 * 32 + (k div 256) mod 8 * 256 + k div 2048 * 2048 = (k::nat)"
proof -
  have a: "k mod 256 = 32 * (k div 32 mod 8) + k mod 32"
    using mod_mult2_eq [of k 32 8] by simp
  have b: "k mod 2048 = 256 * (k div 256 mod 8) + k mod 256"
    using mod_mult2_eq [of k 256 8] by simp
  have c: "k = k div 2048 * 2048 + k mod 2048"
    by simp
  from a b c show ?thesis by linarith
qed

lemma warmup_covers:
  assumes "k < 18432"
  shows "\<exists>p \<in> set warmupQueries. buildKey p = int k"
proof -
  let ?bb = "k mod 32" and ?rb = "(k div 32) mod 8" and ?cb = "(k div 256) mod 8"
    and ?si = "k div 2048"
  have si: "?si < 9"
    using assms by (simp add: div_less_iff_less_mult)
  have b: "?bb < 32" "?rb < 8" "?cb < 8"
    by simp_all
  have "int (?bb + ?rb * 32 + ?cb * 256 + ?si * 2048) = int k"
    by (simp only: key_decomposition)
  then have "int ?bb + int ?rb * 32 + int ?cb * 256 + int ?si * 2048 = int k"
    by (simp only: of_nat_add of_nat_mult of_nat_numeral)
  then have "buildKey (warmupQuery ?si ?bb ?rb ?cb) = int k"
    using buildKey_warmupQuery [OF si b] by simp
  with warmupQuery_mem [OF si b] show ?thesis by blast
qed

lemma CACHE_SIZE_value: "CACHE_SIZE = 18432"
  by (simp add: CACHE_SIZE_def BRIGHTNESS_BUCKETS_def ROUNDNESS_BUCKETS_def
      COMPLEXITY_BUCKETS_def STYLE_COUNT_def)

lemma styleToIndex_le: "styleToIndex s \<le> 8"
proof (cases s)
  case None
  then show ?thesis by simp
next
  case (Some st)
  then show ?thesis by (cases st) simp_all
qed

lemma buildKey_upper: "buildKey p < int CACHE_SIZE"
proof -
  define bb where "bb = min (31::int) \<lfloor>targetCoverage p * 31\<rfloor>"
  define rb where "rb = min (7::int)
    \<lfloor>(case targetRoundness p of None \<Rightarrow> 0.5 | Some r \<Rightarrow> r) * 7\<rfloor>"
  define cb where "cb = min (7::int)
    \<lfloor>(case targetComplexity p of None \<Rightarrow> 0.5 | Some c \<Rightarrow> c) * 7\<rfloor>"
  define si where "si = styleToIndex (GlyphQueryParams.glyphStyle p)"
  have key: "buildKey p = bb + rb * 32 + cb * 32 * 8 + si * 32 * 8 * 8"
    by (simp add: buildKey_def bb_def rb_def cb_def si_def BRIGHTNESS_BUCKETS_def
        ROUNDNESS_BUCKETS_def COMPLEXITY_BUCKETS_def Let_def)
  have "bb \<le> 31" "rb \<le> 7" "cb \<le> 7" "si \<le> 8"
    by (simp_all add: bb_def rb_def cb_def si_def styleToIndex_le)
  then have "bb + rb * 32 + cb * 32 * 8 + si * 32 * 8 * 8 < 18432"
    by linarith
  then show ?thesis
    by (simp only: key CACHE_SIZE_value of_nat_numeral)
qed

lemma select_warm:
  assumes "fullyWarm c"
  shows "select c p = Inr (cachedAt c (buildKey p), c\<lparr>hits := hits c + 1\<rparr>)"
proof (cases "buildKey p < 0")
  case True
  then show ?thesis by (simp add: select_def cachedAt_def)
next
  case False
  have len: "length (cache c) = CACHE_SIZE" using assms by (simp add: fullyWarm_def)
  have "nat (buildKey p) < CACHE_SIZE"
    using buildKey_upper [of p] False by linarith
  then have "cache c ! nat (buildKey p) \<noteq> None"
    using assms by (simp add: fullyWarm_def)
  then obtain r where "cache c ! nat (buildKey p) = Some r" by blast
  then show ?thesis
    using False buildKey_upper [of p] len by (simp add: select_def cachedAt_def)
qed

lemma selectAll_warm:
  "fullyWarm c \<Longrightarrow> selectAll c ps = Inr (c\<lparr>hits := hits c + length ps\<rparr>)"
proof (induction ps arbitrary: c)
  case Nil
  then show ?case by simp
next
  case (Cons p ps)
  have w: "fullyWarm (c\<lparr>hits := hits c + 1\<rparr>)"
    using Cons.prems by (simp add: fullyWarm_def)
  show ?case
    using Cons.IH [OF w] by (simp add: select_warm [OF Cons.prems])
qed

lemma warmup_fills:
  assumes d: "db c \<noteq> []" and len: "length (cache c) = CACHE_SIZE"
  shows "\<exists>c'. warmup c = Inr c' \<and> fullyWarm c' \<and> hits c' = 0 \<and> misses c' = 0 \<and> db c' = db c"
proof -
  from selectAll_fills [OF d, of warmupQueries]
  obtain c1 where a: "selectAll c warmupQueries = Inr c1" and k: "keepsFilled c c1"
    and f: "\<forall>p \<in> set warmupQueries. 0 \<le> buildKey p \<and> buildKey p < int (length (cache c)) \<longrightarrow>
               cache c1 ! nat (buildKey p) \<noteq> None"
    by blast
  have len1: "length (cache c1) = CACHE_SIZE"
    using k len by (simp add: keepsFilled_def)
  have "cache c1 ! j \<noteq> None" if j: "j < CACHE_SIZE" for j
  proof -
    from j have "j < 18432" by (simp add: CACHE_SIZE_value)
    then obtain p where p: "p \<in> set warmupQueries" "buildKey p = int j"
      using warmup_covers by blast
    then show ?thesis
      using f j len by fastforce
  qed
  then have "fullyWarm (c1\<lparr>hits := 0, misses := 0\<rparr>)"
    using len1 by (simp add: fullyWarm_def)
  moreover have "warmup c = Inr (c1\<lparr>hits := 0, misses := 0\<rparr>)"
    using a by (simp add: warmup_def)
  moreover have "db c1 = db c" using k by (simp add: keepsFilled_def)
  ultimately show ?thesis by simp
qed

text \<open>
  Claim C6.  On an object with a non-empty database and a table of \<open>CACHE_SIZE\<close> slots,
  \<open>warmup\<close> returns; afterwards the table has 18432 slots and each holds a record, both
  counters are 0, every \<open>select\<close> returns what the table holds at its key and changes
  nothing but the hit counter, and so does every run of \<open>select\<close> calls: the miss branch,
  the only one that queries the database, is never taken.
\<close>

theorem warmup_fills_every_slot:
  assumes "db c \<noteq> []" and "length (cache c) = CACHE_SIZE"
  shows "\<exists>c'. warmup c = Inr c' \<and>
           length (cache c') = 18432 \<and> (\<forall>k < 18432. cache c' ! k \<noteq> None) \<and>
           hits c' = 0 \<and> misses c' = 0 \<and>
           (\<forall>p. select c' p = Inr (cachedAt c' (buildKey p), c'\<lparr>hits := 1\<rparr>)) \<and>
           (\<forall>ps. selectAll c' ps = Inr (c'\<lparr>hits := length ps\<rparr>))"
proof -
  from warmup_fills [OF assms]
  obtain c' where w: "warmup c = Inr c'" and f: "fullyWarm c'" and h: "hits c' = 0"
    and m: "misses c' = 0"
    by blast
  have "length (cache c') = 18432 \<and> (\<forall>k < 18432. cache c' ! k \<noteq> None)"
    using f by (simp add: fullyWarm_def CACHE_SIZE_value)
  moreover have "\<forall>p. select c' p = Inr (cachedAt c' (buildKey p), c'\<lparr>hits := 1\<rparr>)"
    using select_warm [OF f] h by simp
  moreover have "\<forall>ps. selectAll c' ps = Inr (c'\<lparr>hits := length ps\<rparr>)"
    using selectAll_warm [OF f] h by simp
  ultimately show ?thesis using w h m by blast
qed

theorem warmup_fills_every_slot_witness:
  "db (newGlyphCache (loadGlyphs [glyphDot, glyphHash])) \<noteq> [] \<and>
   length (cache (newGlyphCache (loadGlyphs [glyphDot, glyphHash]))) = CACHE_SIZE \<and>
   (\<exists>c'. warmup (newGlyphCache (loadGlyphs [glyphDot, glyphHash])) = Inr c' \<and>
         length (cache c') = 18432 \<and> cache c' ! 0 \<noteq> None \<and> cache c' ! 18431 \<noteq> None \<and>
         hits c' = 0 \<and> misses c' = 0 \<and>
         select c' (coverageQuery 0.3) = Inr (cache c' ! 873, c'\<lparr>hits := 1\<rparr>))"
proof -
  let ?c = "newGlyphCache (loadGlyphs [glyphDot, glyphHash])"
  have "length (db ?c) = 2"
    by (simp add: newGlyphCache_def)
  then have d: "db ?c \<noteq> []" by auto
  have l: "length (cache ?c) = CACHE_SIZE"
    by (simp add: newGlyphCache_def)
  from warmup_fills_every_slot [OF d l]
  obtain c' where w: "warmup ?c = Inr c'" and n: "length (cache c') = 18432"
    and f: "\<forall>k < 18432. cache c' ! k \<noteq> None" and h: "hits c' = 0" and m: "misses c' = 0"
    and s: "\<forall>p. select c' p = Inr (cachedAt c' (buildKey p), c'\<lparr>hits := 1\<rparr>)"
    by blast
  have k: "buildKey (coverageQuery 0.3) = 873"
    by (simp add: buildKey_def coverageQuery_def BRIGHTNESS_BUCKETS_def ROUNDNESS_BUCKETS_def
        COMPLEXITY_BUCKETS_def)
  have q: "select c' (coverageQuery 0.3) = Inr (cache c' ! 873, c'\<lparr>hits := 1\<rparr>)"
    using s k n by (simp add: cachedAt_def)
  have f0: "cache c' ! 0 \<noteq> None" and f1: "cache c' ! 18431 \<noteq> None"
    using f by simp_all
  have "warmup ?c = Inr c' \<and>
         length (cache c') = 18432 \<and> cache c' ! 0 \<noteq> None \<and> cache c' ! 18431 \<noteq> None \<and>
         hits c' = 0 \<and> misses c' = 0 \<and>
         select c' (coverageQuery 0.3) = Inr (cache c' ! 873, c'\<lparr>hits := 1\<rparr>)"
    using w n f0 f1 h m q by (intro conjI)
  then have "\<exists>c'. warmup ?c = Inr c' \<and>
         length (cache c') = 18432 \<and> cache c' ! 0 \<noteq> None \<and> cache c' ! 18431 \<noteq> None \<and>
         hits c' = 0 \<and> misses c' = 0 \<and>
         select c' (coverageQuery 0.3) = Inr (cache c' ! 873, c'\<lparr>hits := 1\<rparr>)"
    by (rule exI)
  with d l show ?thesis by (intro conjI)
qed

section \<open>Properties of the output buffer\<close>

lemma wf_fb_clear: "wf_fb fb \<Longrightarrow> wf_fb (clear fb)"
  by (simp add: wf_fb_def clear_def)

lemma wf_fb_new: "wf_fb (newFrameBuffer w h)"
  by (simp add: wf_fb_def newFrameBuffer_def clear_def)

lemma wf_fb_set_cell: "wf_fb fb \<Longrightarrow> wf_fb (set_cell fb x y c r g b br)"
  by (simp add: wf_fb_def set_cell_def Let_def)

lemma cell_index_bound:
  assumes "x < (w::nat)" "y < h"
  shows "y * w + x < w * h"
proof -
  have "y * w + x < y * w + w" using assms by simp
  also have "\<dots> = (y + 1) * w" by simp
  also have "\<dots> \<le> h * w" using assms by (intro mult_le_mono1) simp
  finally show ?thesis by (simp add: mult.commute)
qed

lemma truncate_uint: "truncate_num (real_of_int (uint w)) = uint w"
proof -
  have "0 \<le> real_of_int (uint w)"
    using uint_ge_0 [of w] by (simp only: of_int_0_le_iff)
  then show ?thesis
    unfolding truncate_num_def by (simp only: if_True floor_of_int)
qed

lemma toUint32_read: "toUint32 (Fin (real_of_int (uint w))) = w"
  unfolding toUint32.simps truncate_uint by simp

lemma toUint8_read: "toUint8 (Fin (real_of_int (uint w))) = w"
  unfolding toUint8.simps truncate_uint by simp

lemma truncate_unsigned [simp]: "truncate_num (unsigned w) = uint w"
  using truncate_uint [of w] by simp

lemma toUint32_unsigned [simp]: "toUint32 (Fin (unsigned w)) = w"
  using toUint32_read [of w] by simp

lemma toUint8_unsigned [simp]: "toUint8 (Fin (unsigned w)) = w"
  using toUint8_read [of w] by simp

lemma strictNe_unsigned:
  "i < length xs \<Longrightarrow>
   strictNe (readUnsigned xs i) v \<longleftrightarrow> Fin (real_of_int (uint (xs ! i))) \<noteq> v"
  by (auto simp: strictNe_def readUnsigned_def readAt_def)

lemma strictNe_float:
  "i < length xs \<Longrightarrow> strictNe (readAt xs i) v \<longleftrightarrow> \<not> (xs ! i = v \<and> v \<noteq> NaN)"
  by (auto simp: strictNe_def readAt_def)

lemma set_cell_same:
  assumes "wf_fb fb" "x < FrameBuffer.width fb" "y < FrameBuffer.height fb"
    and "sameAsStored fb (y * FrameBuffer.width fb + x) c r g b br"
  shows "set_cell fb x y c r g b br = fb"
proof -
  have i: "y * FrameBuffer.width fb + x < FrameBuffer.width fb * FrameBuffer.height fb"
    using assms(2,3) by (rule cell_index_bound)
  show ?thesis
    using assms(1,4) i
    by (simp add: set_cell_def Let_def strictNe_unsigned strictNe_float wf_fb_def
        sameAsStored_def cellValues_def)
qed

lemma set_cell_other:
  "j \<noteq> y * FrameBuffer.width fb + x \<Longrightarrow> sameCell fb (set_cell fb x y c r g b br) j"
  by (simp add: sameCell_def set_cell_def Let_def)

lemma set_cell_dims:
  "FrameBuffer.width (set_cell fb x y c r g b br) = FrameBuffer.width fb \<and>
   FrameBuffer.height (set_cell fb x y c r g b br) = FrameBuffer.height fb"
  by (simp add: set_cell_def Let_def)

lemma set_cell_dirty:
  assumes "wf_fb fb" "x < FrameBuffer.width fb" "y < FrameBuffer.height fb"
    and "\<not> sameAsStored fb (y * FrameBuffer.width fb + x) c r g b br"
  shows "dirty (set_cell fb x y c r g b br) ! (y * FrameBuffer.width fb + x) = 1"
proof -
  have i: "y * FrameBuffer.width fb + x < FrameBuffer.width fb * FrameBuffer.height fb"
    using assms(2,3) by (rule cell_index_bound)
  show ?thesis
    using assms(1,4) i
    by (auto simp: set_cell_def Let_def strictNe_unsigned strictNe_float wf_fb_def
        sameAsStored_def cellValues_def)
qed

lemma set_cell_converts:
  assumes "wf_fb fb" "x < FrameBuffer.width fb" "y < FrameBuffer.height fb"
  shows "chars (set_cell fb x y c r g b br) ! (y * FrameBuffer.width fb + x) = toUint32 c"
    and "colorR (set_cell fb x y c r g b br) ! (y * FrameBuffer.width fb + x) = toUint8 r"
    and "colorG (set_cell fb x y c r g b br) ! (y * FrameBuffer.width fb + x) = toUint8 g"
    and "colorB (set_cell fb x y c r g b br) ! (y * FrameBuffer.width fb + x) = toUint8 b"
    and "FrameBuffer.brightness (set_cell fb x y c r g b br) ! (y * FrameBuffer.width fb + x) =
           (if FrameBuffer.brightness fb ! (y * FrameBuffer.width fb + x) = br \<and> br \<noteq> NaN
            then br else fround br)"
proof -
  have i: "y * FrameBuffer.width fb + x < FrameBuffer.width fb * FrameBuffer.height fb"
    using assms(2,3) by (rule cell_index_bound)
  show "chars (set_cell fb x y c r g b br) ! (y * FrameBuffer.width fb + x) = toUint32 c"
    using assms(1) i by (auto simp: set_cell_def Let_def strictNe_unsigned wf_fb_def)
  show "colorR (set_cell fb x y c r g b br) ! (y * FrameBuffer.width fb + x) = toUint8 r"
    using assms(1) i by (auto simp: set_cell_def Let_def strictNe_unsigned wf_fb_def)
  show "colorG (set_cell fb x y c r g b br) ! (y * FrameBuffer.width fb + x) = toUint8 g"
    using assms(1) i by (auto simp: set_cell_def Let_def strictNe_unsigned wf_fb_def)
  show "colorB (set_cell fb x y c r g b br) ! (y * FrameBuffer.width fb + x) = toUint8 b"
    using assms(1) i by (auto simp: set_cell_def Let_def strictNe_unsigned wf_fb_def)
  show "FrameBuffer.brightness (set_cell fb x y c r g b br) ! (y * FrameBuffer.width fb + x) =
           (if FrameBuffer.brightness fb ! (y * FrameBuffer.width fb + x) = br \<and> br \<noteq> NaN
            then br else fround br)"
    using assms(1) i by (auto simp: set_cell_def Let_def strictNe_float wf_fb_def)
qed

lemma set_cell_stores:
  assumes "wf_fb fb" "x < FrameBuffer.width fb" "y < FrameBuffer.height fb" "storable c r g b br"
  shows "cellValues (set_cell fb x y c r g b br) (y * FrameBuffer.width fb + x) = (c, r, g, b, br)"
  using assms(4)
  by (simp add: cellValues_def set_cell_converts [OF assms(1,2,3)] storable_def)

subsection \<open>Float32 rounding at concrete values\<close>

lemma floor_log2:
  assumes "2 powr (of_int k) \<le> x" "x < 2 powr (of_int k + 1)"
  shows "\<lfloor>log 2 x\<rfloor> = k"
proof -
  have "0 < (2::real) powr of_int k" by simp
  with assms(1) have pos: "0 < x" by linarith
  have "of_int k \<le> log 2 x"
    using pos assms(1) by (simp add: le_log_iff)
  moreover have "log 2 x < of_int k + 1"
    using pos assms(2) by (simp add: log_less_iff)
  ultimately show ?thesis
    by (intro floor_unique) simp_all
qed

lemma nearestFloat32_three_quarters: "nearestFloat32 (3/4) = 3/4"
proof -
  have "\<lfloor>log 2 \<bar>3/4::real\<bar>\<rfloor> = -1"
    by (rule floor_log2) (simp_all add: powr_minus)
  then show ?thesis
    by (simp add: nearestFloat32_def Let_def round_half_even_def powr_minus)
qed

lemma nearestFloat32_tenth: "nearestFloat32 (1/10) = 13421773 / 134217728"
proof -
  have "\<lfloor>log 2 \<bar>1/10::real\<bar>\<rfloor> = -4"
    by (rule floor_log2) (simp_all add: powr_minus)
  then show ?thesis
    by (simp add: nearestFloat32_def Let_def round_half_even_def powr_minus)
qed

lemma fround_zero: "fround (Fin 0) = Fin 0"
  by (simp add: nearestFloat32_def)

lemma fround_three_quarters: "fround (Fin (3/4)) = Fin (3/4)"
  by (simp add: nearestFloat32_three_quarters)

lemma fround_tenth: "fround (Fin (1/10)) = Fin (13421773 / 134217728)"
  by (simp add: nearestFloat32_tenth)

text \<open>Beyond the float32 range the stored value is an infinity.\<close>

lemma fround_overflow: "fround (Fin (2 ^ 130)) = PInf"
proof -
  have "(2::real) powr of_int 130 = 2 ^ 130" "(2::real) powr (of_int 130 + 1) = 2 ^ 131"
    by (simp_all add: powr_realpow [symmetric])
  then have "\<lfloor>log 2 \<bar>2 ^ 130 :: real\<bar>\<rfloor> = 130"
    by (intro floor_log2) simp_all
  then have "nearestFloat32 (2 ^ 130) = 2 ^ 130"
    by (simp add: nearestFloat32_def Let_def round_half_even_def powr_realpow [symmetric])
  then show ?thesis by simp
qed

lemma blankBuffer_fields:
  "FrameBuffer.width blankBuffer = 2" "FrameBuffer.height blankBuffer = 1"
  "chars blankBuffer = [0x20, 0x20]" "colorR blankBuffer = [0, 0]"
  "colorG blankBuffer = [0, 0]" "colorB blankBuffer = [0, 0]"
  "FrameBuffer.brightness blankBuffer = [Fin 0, Fin 0]" "dirty blankBuffer = [0, 0]"
  by (simp_all add: blankBuffer_def clearDirtyFlags_def newFrameBuffer_def clear_def
      numeral_2_eq_2)

lemma wf_blankBuffer: "wf_fb blankBuffer"
  by (simp add: wf_fb_def blankBuffer_fields)

subsection \<open>Effect of \<open>set\<close>\<close>

text \<open>
  What one call does to a cell inside the buffer.  A call whose five values equal the stored
  ones (as \<open>===\<close> compares them) returns the buffer unchanged, dirty flag included; a call
  in which some value differs from the stored one sets the cell's dirty flag to 1.  After
  either call the integer arrays hold the conversions of the code point and the three
  channels, and the brightness array holds the float32 rounding of a brightness that
  differed (the brightness itself if it did not); so for values the typed arrays hold
  without conversion the cell holds exactly the five values.  No other cell, and neither the
  dimensions nor the array sizes, change.
\<close>

lemma set_cell_effect:
  assumes "wf_fb fb" and "x < FrameBuffer.width fb" and "y < FrameBuffer.height fb"
  shows
    "(sameAsStored fb (y * FrameBuffer.width fb + x) c r g b br \<longrightarrow>
        set_cell fb x y c r g b br = fb) \<and>
     (\<not> sameAsStored fb (y * FrameBuffer.width fb + x) c r g b br \<longrightarrow>
        dirty (set_cell fb x y c r g b br) ! (y * FrameBuffer.width fb + x) = 1) \<and>
     chars (set_cell fb x y c r g b br) ! (y * FrameBuffer.width fb + x) = toUint32 c \<and>
     colorR (set_cell fb x y c r g b br) ! (y * FrameBuffer.width fb + x) = toUint8 r \<and>
     colorG (set_cell fb x y c r g b br) ! (y * FrameBuffer.width fb + x) = toUint8 g \<and>
     colorB (set_cell fb x y c r g b br) ! (y * FrameBuffer.width fb + x) = toUint8 b \<and>
     FrameBuffer.brightness (set_cell fb x y c r g b br) ! (y * FrameBuffer.width fb + x) =
       (if FrameBuffer.brightness fb ! (y * FrameBuffer.width fb + x) = br \<and> br \<noteq> NaN
        then br else fround br) \<and>
     (storable c r g b br \<longrightarrow>
        cellValues (set_cell fb x y c r g b br) (y * FrameBuffer.width fb + x) = (c, r, g, b, br)) \<and>
     (\<forall>j. j \<noteq> y * FrameBuffer.width fb + x \<longrightarrow> sameCell fb (set_cell fb x y c r g b br) j) \<and>
     wf_fb (set_cell fb x y c r g b br) \<and>
     FrameBuffer.width (set_cell fb x y c r g b br) = FrameBuffer.width fb \<and>
     FrameBuffer.height (set_cell fb x y c r g b br) = FrameBuffer.height fb"
proof (intro conjI impI allI)
  show "set_cell fb x y c r g b br = fb"
    if "sameAsStored fb (y * FrameBuffer.width fb + x) c r g b br"
    using that by (rule set_cell_same [OF assms])
  show "dirty (set_cell fb x y c r g b br) ! (y * FrameBuffer.width fb + x) = 1"
    if "\<not> sameAsStored fb (y * FrameBuffer.width fb + x) c r g b br"
    using that by (rule set_cell_dirty [OF assms])
  show "chars (set_cell fb x y c r g b br) ! (y * FrameBuffer.width fb + x) = toUint32 c"
    "colorR (set_cell fb x y c r g b br) ! (y * FrameBuffer.width fb + x) = toUint8 r"
    "colorG (set_cell fb x y c r g b br) ! (y * FrameBuffer.width fb + x) = toUint8 g"
    "colorB (set_cell fb x y c r g b br) ! (y * FrameBuffer.width fb + x) = toUint8 b"
    "FrameBuffer.brightness (set_cell fb x y c r g b br) ! (y * FrameBuffer.width fb + x) =
       (if FrameBuffer.brightness fb ! (y * FrameBuffer.width fb + x) = br \<and> br \<noteq> NaN
        then br else fround br)"
    by (rule set_cell_converts [OF assms])+
  show "cellValues (set_cell fb x y c r g b br) (y * FrameBuffer.width fb + x) = (c, r, g, b, br)"
    if "storable c r g b br"
    using that by (rule set_cell_stores [OF assms])
  show "sameCell fb (set_cell fb x y c r g b br) j" if "j \<noteq> y * FrameBuffer.width fb + x" for j
    using that by (rule set_cell_other)
  show "wf_fb (set_cell fb x y c r g b br)"
    by (rule wf_fb_set_cell [OF assms(1)])
  show "FrameBuffer.width (set_cell fb x y c r g b br) = FrameBuffer.width fb"
    "FrameBuffer.height (set_cell fb x y c r g b br) = FrameBuffer.height fb"
    using set_cell_dims [of fb x y] by simp_all
qed

lemma paintedBuffer_tenth:
  "paintedBuffer (1/10) =
     blankBuffer\<lparr>chars := [0x20, 65], colorR := [0, 255], colorG := [0, 128], colorB := [0, 0],
                 FrameBuffer.brightness := [Fin 0, Fin (13421773 / 134217728)]\<rparr>"
  by (simp add: paintedBuffer_def set_cell_def Let_def strictNe_def readUnsigned_def readAt_def
      blankBuffer_fields clearDirtyFlags_def truncate_num_def nearestFloat32_tenth)

lemma paintedBuffer_three_quarters:
  "paintedBuffer (3/4) =
     blankBuffer\<lparr>chars := [0x20, 65], colorR := [0, 255], colorG := [0, 128], colorB := [0, 0],
                 FrameBuffer.brightness := [Fin 0, Fin (3/4)]\<rparr>"
  by (simp add: paintedBuffer_def set_cell_def Let_def strictNe_def readUnsigned_def readAt_def
      blankBuffer_fields clearDirtyFlags_def truncate_num_def nearestFloat32_three_quarters)

text \<open>
  Claim C9 fails in the code.  \<open>set\<close> compares the value read from the typed array with the
  argument before conversion, and the brightness array holds float32 values.  On the buffer
  holding the result of \<open>set(1, 0, 65, 255, 128, 0, 0.1)\<close> with all dirty flags cleared, the
  same call again changes no stored value of any cell, and yet sets the dirty flag of the
  cell: the stored brightness is the float32 nearest to \<open>0.1\<close>, which \<open>!==\<close> tells apart
  from \<open>0.1\<close>.  With brightness \<open>0.75\<close>, which is a float32, the second call leaves the
  flag alone, as the repository's test expects of every repeated call.
\<close>

theorem set_cell_same_values_mark_dirty:
  "dirty (paintedBuffer (1/10)) = [0, 0] \<and>
   \<not> isDirty (paintedBuffer (1/10)) 1 0 \<and>
   cellValues (paintedBuffer (1/10)) 1 =
     (Fin 65, Fin 255, Fin 128, Fin 0, Fin (13421773 / 134217728)) \<and>
   set_cell (paintedBuffer (1/10)) 1 0 (Fin 65) (Fin 255) (Fin 128) (Fin 0) (Fin (1/10)) =
     (paintedBuffer (1/10))\<lparr>dirty := [0, 1]\<rparr> \<and>
   isDirty (set_cell (paintedBuffer (1/10)) 1 0 (Fin 65) (Fin 255) (Fin 128) (Fin 0) (Fin (1/10))) 1 0 \<and>
   cellValues (paintedBuffer (3/4)) 1 = (Fin 65, Fin 255, Fin 128, Fin 0, Fin (3/4)) \<and>
   set_cell (paintedBuffer (3/4)) 1 0 (Fin 65) (Fin 255) (Fin 128) (Fin 0) (Fin (3/4)) =
     paintedBuffer (3/4)"
  unfolding paintedBuffer_tenth paintedBuffer_three_quarters
  by (simp add: set_cell_def Let_def strictNe_def readUnsigned_def readAt_def isDirty_def
      cellValues_def blankBuffer_fields truncate_num_def nearestFloat32_tenth
      nearestFloat32_three_quarters)

section \<open>Properties of the temporal cache and the frame scan\<close>

lemma keeps_refl: "keeps s s"
  by (simp add: keeps_def)

lemma keeps_trans: "keeps a b \<Longrightarrow> keeps b c \<Longrightarrow> keeps a c"
  by (simp add: keeps_def)

lemma isValid_iff:
  "isValid tc x y \<longleftrightarrow>
     y * TemporalCache.width tc + x < length (valid tc) \<and>
     valid tc ! (y * TemporalCache.width tc + x) = 1"
proof -
  have "real_of_int (uint w) = 1 \<longleftrightarrow> w = 1" for w :: "8 word"
    by (metis of_int_eq_1_iff uint_1_eq word_uint_eq_iff)
  then have "Fin (real_of_int (uint w)) = Fin 1 \<longleftrightarrow> w = 1" for w :: "8 word"
    by simp
  then show ?thesis
    by (simp add: isValid_def readUnsigned_def readAt_def)
qed

lemma nth_update_same_value: "j < length xs \<Longrightarrow> xs ! j = v \<Longrightarrow> xs[i := v] ! j = v"
  by (cases "i = j") simp_all

lemma isValid_storeMiss_other:
  "isValid tc x' y' \<Longrightarrow> isValid (storeMiss tc x y) x' y'"
  by (simp add: isValid_iff storeMiss_def Let_def nth_update_same_value)

lemma isValid_store_other:
  "isValid tc x' y' \<Longrightarrow> isValid (store tc x y d e p n) x' y'"
  by (simp add: isValid_iff store_def Let_def nth_update_same_value)

lemma isValid_storeMiss_self:
  "y * TemporalCache.width tc + x < length (valid tc) \<Longrightarrow> isValid (storeMiss tc x y) x y"
  by (simp add: isValid_iff storeMiss_def Let_def)

lemma isValid_store_self:
  "y * TemporalCache.width tc + x < length (valid tc) \<Longrightarrow> isValid (store tc x y d e p n) x y"
  by (simp add: isValid_iff store_def Let_def)

lemma wf_tc_storeMiss: "wf_tc (storeMiss tc x y) = wf_tc tc"
  by (simp add: wf_tc_def storeMiss_def Let_def)

lemma wf_tc_store: "wf_tc (store tc x y d e p n) = wf_tc tc"
  by (simp add: wf_tc_def store_def Let_def)

lemma storeMiss_fields:
  "TemporalCache.width (storeMiss tc x y) = TemporalCache.width tc"
  "TemporalCache.height (storeMiss tc x y) = TemporalCache.height tc"
  "prevCameraPos (storeMiss tc x y) = prevCameraPos tc"
  "prevCameraRot (storeMiss tc x y) = prevCameraRot tc"
  "length (valid (storeMiss tc x y)) = length (valid tc)"
  by (simp_all add: storeMiss_def Let_def)

lemma store_fields:
  "TemporalCache.width (store tc x y d e p n) = TemporalCache.width tc"
  "TemporalCache.height (store tc x y d e p n) = TemporalCache.height tc"
  "prevCameraPos (store tc x y d e p n) = prevCameraPos tc"
  "prevCameraRot (store tc x y d e p n) = prevCameraRot tc"
  "length (valid (store tc x y d e p n)) = length (valid tc)"
  by (simp_all add: store_def Let_def)

lemma tracePixel_keeps:
  assumes "tracePixel L fb x y = Inr s'"
  shows "keeps (L, fb) s'"
proof (cases "raymarch (createRay (camera (scene L)) x y (FrameBuffer.width fb) (FrameBuffer.height fb))
                (world L)
                (if useAdaptiveQuality L
                 then getMaxSteps x y (FrameBuffer.width fb) (FrameBuffer.height fb) else 64)")
  case (Inl e)
  then show ?thesis using assms by (simp add: tracePixel_def Let_def)
next
  case (Inr res)
  show ?thesis
  proof (cases res)
    case Miss
    then have "s' = (L\<lparr>temporal := storeMiss (temporal L) x y, traces := traces L + 1\<rparr>,
                     set_cell fb x y (Fin 0x20) (Fin (chR (backgroundColor (environment (scene L)))))
                       (Fin (chG (backgroundColor (environment (scene L)))))
                       (Fin (chB (backgroundColor (environment (scene L))))) (Fin 0))"
      using assms Inr by (simp add: tracePixel_def Let_def)
    then show ?thesis
      by (simp add: keeps_def set_cell_dims storeMiss_fields wf_tc_storeMiss
          isValid_storeMiss_other)
  next
    case (Hit h)
    show ?thesis
    proof (cases "shadeHit (scene L) (glyphCache L) h")
      case (Inl e)
      then show ?thesis using assms Inr Hit by (simp add: tracePixel_def Let_def)
    next
      case sh: (Inr r)
      obtain gc cp lit where r: "r = (gc, cp, lit)" by (cases r) auto
      have "s' = (L\<lparr>glyphCache := gc,
                      temporal := store (temporal L) x y (HitResult.distance h)
                                    (HitResult.entityIndex h) (HitResult.position h) (normal h),
                      traces := traces L + 1\<rparr>,
                   set_cell fb x y cp (Fin (litR lit)) (Fin (litG lit)) (Fin (litB lit))
                     (Fin (LightingResult.brightness lit)))"
        using assms Inr Hit sh r by (simp add: tracePixel_def Let_def)
      then show ?thesis
        by (simp add: keeps_def set_cell_dims store_fields wf_tc_store isValid_store_other)
    qed
  qed
qed

lemma tracePixel_valid:
  assumes "tracePixel L fb x y = Inr s'"
    and "y * TemporalCache.width (temporal L) + x < length (valid (temporal L))"
  shows "isValid (temporal (fst s')) x y"
proof (cases "raymarch (createRay (camera (scene L)) x y (FrameBuffer.width fb) (FrameBuffer.height fb))
                (world L)
                (if useAdaptiveQuality L
                 then getMaxSteps x y (FrameBuffer.width fb) (FrameBuffer.height fb) else 64)")
  case (Inl e)
  then show ?thesis using assms by (simp add: tracePixel_def Let_def)
next
  case (Inr res)
  show ?thesis
  proof (cases res)
    case Miss
    then have "temporal (fst s') = storeMiss (temporal L) x y"
      using assms Inr by (auto simp: tracePixel_def Let_def)
    then show ?thesis
      using assms(2) by (simp add: isValid_storeMiss_self)
  next
    case (Hit h)
    show ?thesis
    proof (cases "shadeHit (scene L) (glyphCache L) h")
      case (Inl e)
      then show ?thesis using assms Inr Hit by (simp add: tracePixel_def Let_def)
    next
      case sh: (Inr r)
      obtain gc cp lit where r: "r = (gc, cp, lit)" by (cases r) auto
      have "temporal (fst s') = store (temporal L) x y (HitResult.distance h)
                                    (HitResult.entityIndex h) (HitResult.position h) (normal h)"
        using assms Inr Hit sh r by (auto simp: tracePixel_def Let_def)
      then show ?thesis
        using assms(2) by (simp add: isValid_store_self)
    qed
  qed
qed

lemma reshadePixel_keeps:
  assumes "reshadePixel L fb x y entity = Inr s'"
  shows "keeps (L, fb) s' \<and> temporal (fst s') = temporal L"
proof (cases "reshade (scene L) (glyphCache L) (getHitPos (temporal L) x y)
                (getNormal (temporal L) x y) entity")
  case (Inl e)
  then show ?thesis using assms by (simp add: reshadePixel_def)
next
  case (Inr r)
  obtain gc cp lit where r: "r = (gc, cp, lit)" by (cases r) auto
  have "s' = (L\<lparr>glyphCache := gc\<rparr>,
               set_cell fb x y cp (Fin (litR lit)) (Fin (litG lit)) (Fin (litB lit))
                 (Fin (LightingResult.brightness lit)))"
    using assms Inr r by (simp add: reshadePixel_def)
  then show ?thesis
    by (simp add: keeps_def set_cell_dims)
qed

lemma renderPixel_cases:
  assumes "renderPixel L cc am af fb x y = Inr s'"
  shows "(isValid (temporal L) x y \<and> s' = (L, fb)) \<or>
         tracePixel L fb x y = Inr s' \<or>
         (isValid (temporal L) x y \<and> (\<exists>ent. reshadePixel L fb x y ent = Inr s'))"
  using assms
  by (auto simp: renderPixel_def Let_def split: if_splits option.splits)

lemma renderPixel_keeps_valid:
  assumes r: "renderPixel L cc am af fb x y = Inr s'"
    and idx: "y * TemporalCache.width (temporal L) + x < length (valid (temporal L))"
  shows "keeps (L, fb) s' \<and> isValid (temporal (fst s')) x y"
proof -
  from renderPixel_cases [OF r]
  consider (same) "isValid (temporal L) x y" "s' = (L, fb)"
    | (trace) "tracePixel L fb x y = Inr s'"
    | (reshade) ent where "isValid (temporal L) x y" "reshadePixel L fb x y ent = Inr s'"
    by blast
  then show ?thesis
  proof cases
    case same
    then show ?thesis by (simp add: keeps_refl)
  next
    case trace
    then show ?thesis
      using tracePixel_keeps [OF trace] tracePixel_valid [OF trace idx] by simp
  next
    case reshade
    then show ?thesis
      using reshadePixel_keeps [OF reshade(2)] by simp
  qed
qed

lemma renderRow_keeps_valid:
  assumes "renderRow late cc am af y xs s = Inr s'"
    and "\<not> useAdaptiveQuality (fst s)"
    and "\<forall>x \<in> set xs. y * TemporalCache.width (temporal (fst s)) + x < length (valid (temporal (fst s)))"
  shows "keeps s s' \<and> (\<forall>x \<in> set xs. isValid (temporal (fst s')) x y)"
  using assms
proof (induction xs arbitrary: s)
  case Nil
  then show ?case by (simp add: keeps_refl)
next
  case (Cons x xs)
  obtain L fb where s: "s = (L, fb)" by (cases s) auto
  from Cons.prems(1,2) obtain s1 where p: "renderPixel L cc am af fb x y = Inr s1"
    and rest: "renderRow late cc am af y xs s1 = Inr s'"
    by (auto simp: s split: sum.splits)
  have idx: "y * TemporalCache.width (temporal L) + x < length (valid (temporal L))"
    using Cons.prems(3) by (simp add: s)
  from renderPixel_keeps_valid [OF p idx]
  have k1: "keeps (L, fb) s1" and v1: "isValid (temporal (fst s1)) x y"
    by simp_all
  have a1: "\<not> useAdaptiveQuality (fst s1)"
    using k1 Cons.prems(2) by (simp add: keeps_def s)
  have b1: "\<forall>x' \<in> set xs. y * TemporalCache.width (temporal (fst s1)) + x'
              < length (valid (temporal (fst s1)))"
    using k1 Cons.prems(3) by (simp add: keeps_def s)
  from Cons.IH [OF rest a1 b1]
  have k2: "keeps s1 s'" and v2: "\<forall>x' \<in> set xs. isValid (temporal (fst s')) x' y"
    by simp_all
  have "isValid (temporal (fst s')) x y"
    using k2 v1 by (simp add: keeps_def)
  moreover have "keeps s s'"
    using k1 k2 s keeps_trans by blast
  ultimately show ?case using v2 by simp
qed

lemma renderRows_keeps_valid:
  assumes "renderRows late cc am af ys xs s = Inr s'"
    and "\<not> useAdaptiveQuality (fst s)"
    and "\<forall>y \<in> set ys. \<forall>x \<in> set xs.
           y * TemporalCache.width (temporal (fst s)) + x < length (valid (temporal (fst s)))"
  shows "keeps s s' \<and> (\<forall>y \<in> set ys. \<forall>x \<in> set xs. isValid (temporal (fst s')) x y)"
  using assms
proof (induction ys arbitrary: s)
  case Nil
  then show ?case by (simp add: keeps_refl)
next
  case (Cons y ys)
  from Cons.prems(1) obtain s1 where row: "renderRow late cc am af y xs s = Inr s1"
    and rest: "renderRows late cc am af ys xs s1 = Inr s'"
    by (auto split: sum.splits)
  have b0: "\<forall>x \<in> set xs. y * TemporalCache.width (temporal (fst s)) + x
              < length (valid (temporal (fst s)))"
    using Cons.prems(3) by simp
  from renderRow_keeps_valid [OF row Cons.prems(2) b0]
  have k1: "keeps s s1" and v1: "\<forall>x \<in> set xs. isValid (temporal (fst s1)) x y"
    by simp_all
  have a1: "\<not> useAdaptiveQuality (fst s1)"
    using k1 Cons.prems(2) by (simp add: keeps_def)
  have b1: "\<forall>y' \<in> set ys. \<forall>x \<in> set xs.
              y' * TemporalCache.width (temporal (fst s1)) + x < length (valid (temporal (fst s1)))"
    using k1 Cons.prems(3) by (simp add: keeps_def)
  from Cons.IH [OF rest a1 b1]
  have k2: "keeps s1 s'"
    and v2: "\<forall>y' \<in> set ys. \<forall>x \<in> set xs. isValid (temporal (fst s')) x y'"
    by simp_all
  have "\<forall>x \<in> set xs. isValid (temporal (fst s')) x y"
    using k2 v1 by (simp add: keeps_def)
  moreover have "keeps s s'"
    using k1 k2 by (rule keeps_trans)
  ultimately show ?case using v2 by simp
qed

subsection \<open>A frame in which every pixel is reused\<close>

lemma entityAt_mem: "entityAt es i = Some e \<Longrightarrow> e \<in> set es"
  by (auto simp: entityAt_def split: if_splits)

lemma renderPixel_reuse:
  assumes "useTemporalReuse L" and "isValid (temporal L) x y"
    and "\<not> hasAnyMoving (scene L)"
  shows "renderPixel L False False False fb x y = Inr (L, fb)"
proof -
  have "\<not> entityMoves e" if "entityAt (Scene.entities (scene L)) i = Some e" for i e
    using assms(3) entityAt_mem [OF that] by (auto simp: hasAnyMoving_def list_ex_iff)
  then show ?thesis
    using assms(1,2)
    by (auto simp: renderPixel_def Let_def split: option.splits)
qed

lemma renderRow_reuse:
  assumes "useTemporalReuse L" and "\<not> useAdaptiveQuality L" and "\<not> hasAnyMoving (scene L)"
    and "\<forall>x \<in> set xs. isValid (temporal L) x y"
  shows "renderRow late False False False y xs (L, fb) = Inr (L, fb)"
  using assms(4)
proof (induction xs)
  case Nil
  then show ?case by simp
next
  case (Cons x xs)
  have "renderPixel L False False False fb x y = Inr (L, fb)"
    using Cons.prems by (intro renderPixel_reuse assms) simp
  then show ?case
    using Cons assms(2) by simp
qed

lemma renderRows_reuse:
  assumes "useTemporalReuse L" and "\<not> useAdaptiveQuality L" and "\<not> hasAnyMoving (scene L)"
    and "\<forall>y \<in> set ys. \<forall>x \<in> set xs. isValid (temporal L) x y"
  shows "renderRows late False False False ys xs (L, fb) = Inr (L, fb)"
  using assms(4)
proof (induction ys)
  case Nil
  then show ?case by simp
next
  case (Cons y ys)
  have "renderRow late False False False y xs (L, fb) = Inr (L, fb)"
    using Cons.prems by (intro renderRow_reuse assms) simp
  then show ?case
    using Cons by simp
qed

lemma isValid_updateCamera [simp]: "isValid (updateCamera tc p r) x y = isValid tc x y"
  by (simp add: isValid_def updateCamera_def)

lemma cameraChanged_after_update:
  "\<not> cameraChanged (updateCamera tc p r) p r"
  by (simp add: cameraChanged_def updateCamera_def Let_def)

lemma updateCamera_idem: "updateCamera (updateCamera tc p r) p r = updateCamera tc p r"
  by (simp add: updateCamera_def)

subsection \<open>A frame of the one-sphere scene\<close>

lemma sphereCells_above: "sphereCells (hashCell 0 1 3) = None"
  by (simp add: sphereCells_def overlappedCells_unitSphere insertCell_def hashCell_def)

lemma sphereWorld_sample_camera:
  "sample sphereWorld (vec3 0 2 6) =
     Inr \<lparr>SampleResult.distance = PInf, SampleResult.material = EMPTY_MATERIAL,
          SampleResult.entityId = '''', SampleResult.entityIndex = -1\<rparr>"
  by (simp add: sample_def getCandidates_def sphereWorld_def vec3_def Let_def sphereCells_above)

lemma ray_start: "add_v p (mul_v d 0) = p"
  by (simp add: add_v_def mul_v_def)

lemma march_from_camera:
  "origin ray = vec3 0 2 6 \<Longrightarrow> march ray sphereWorld (Suc n) 0 = Inr Miss"
  by (simp add: Let_def ray_start sphereWorld_sample_camera HIT_THRESHOLD_def)

lemma raymarch_from_camera:
  assumes "origin ray = vec3 0 2 6"
  shows "raymarch ray sphereWorld 64 = Inr Miss"
proof -
  have "(64::nat) = Suc 63" by simp
  then show ?thesis
    unfolding raymarch_def by (simp only: march_from_camera [OF assms])
qed

lemma demo_ray_origin: "origin (createRay (camera demoScene) x y w h) = vec3 0 2 6"
  by (simp add: createRay_def Let_def demoScene_def)

lemma demo_tracePixel:
  assumes "scene L = demoScene" "world L = sphereWorld" "\<not> useAdaptiveQuality L"
  shows "tracePixel L fb x y =
           Inr (L\<lparr>temporal := storeMiss (temporal L) x y, traces := traces L + 1\<rparr>,
                set_cell fb x y (Fin 32) (Fin 0) (Fin 0) (Fin 0) (Fin 0))"
proof -
  have bg: "backgroundColor (environment demoScene) = \<lparr>chR = 0, chG = 0, chB = 0\<rparr>"
    by (simp add: demoScene_def)
  show ?thesis
    by (simp add: tracePixel_def Let_def assms raymarch_from_camera [OF demo_ray_origin] bg)
qed

lemma demoBuffer_fields:
  "FrameBuffer.width demoBuffer = 2" "FrameBuffer.height demoBuffer = 1"
  "chars demoBuffer = [0x20, 0x20]" "colorR demoBuffer = [0, 0]"
  "colorG demoBuffer = [0, 0]" "colorB demoBuffer = [0, 0]"
  "FrameBuffer.brightness demoBuffer = [Fin 0, Fin 0]"
  by (simp_all add: demoBuffer_def newFrameBuffer_def clear_def numeral_2_eq_2)

lemma wf_demoBuffer: "wf_fb demoBuffer"
  unfolding demoBuffer_def by (rule wf_fb_new)

lemma demo_set_cell:
  assumes "x < 2"
  shows "set_cell demoBuffer x 0 (Fin 32) (Fin 0) (Fin 0) (Fin 0) (Fin 0) = demoBuffer"
proof -
  have "x = 0 \<or> x = 1" using assms by auto
  then have "sameAsStored demoBuffer (0 * FrameBuffer.width demoBuffer + x)
               (Fin 32) (Fin 0) (Fin 0) (Fin 0) (Fin 0)"
    by (auto simp: sameAsStored_def cellValues_def demoBuffer_fields)
  then show ?thesis
    using assms by (intro set_cell_same wf_demoBuffer) (simp_all add: demoBuffer_fields)
qed

lemma demo_renderPixel:
  assumes "scene L = demoScene" "world L = sphereWorld" "\<not> useAdaptiveQuality L" "x < 2"
  shows "renderPixel L True am af demoBuffer x 0 =
           Inr (L\<lparr>temporal := storeMiss (temporal L) x 0, traces := traces L + 1\<rparr>,
                demoBuffer)"
  by (simp add: renderPixel_def demo_tracePixel [OF assms(1,2,3)] demo_set_cell [OF assms(4)])

lemma demo_first_frame:
  "renderFrameSingleThread noDeadline demoLoop demoBuffer = Inr (demoLoopAfter, demoBuffer)"
proof -
  let ?La = "demoLoop\<lparr>temporal := storeMiss (temporal demoLoop) 0 0, traces := Suc (traces demoLoop)\<rparr>"
  let ?Lb = "demoLoop\<lparr>temporal := storeMiss (storeMiss (temporal demoLoop) 0 0) (Suc 0) 0,
                         traces := Suc (Suc (traces demoLoop))\<rparr>"
  have sel: "scene demoLoop = demoScene" "world demoLoop = sphereWorld"
            "\<not> useAdaptiveQuality demoLoop"
    by (simp_all add: demoLoop_def)
  have cc: "cameraChanged (temporal demoLoop) (Camera.position (camera (scene demoLoop)))
              (Camera.rotation (camera (scene demoLoop)))"
    by (simp add: cameraChanged_def demoLoop_def demoScene_def newTemporalCache_def vec3_def Let_def)
  have p0: "renderPixel demoLoop True am af demoBuffer 0 0 = Inr (?La, demoBuffer)" for am af
    using demo_renderPixel [of demoLoop 0 am af] sel by simp
  have p1: "renderPixel ?La True am af demoBuffer (Suc 0) 0 = Inr (?Lb, demoBuffer)" for am af
    using demo_renderPixel [of ?La "Suc 0" am af] sel by simp
  have row: "renderRow noDeadline True am af 0 [0, Suc 0] (demoLoop, demoBuffer) = Inr (?Lb, demoBuffer)"
    for am af
    by (simp add: p0 p1 noDeadline_def)
  have rows: "renderRows noDeadline True am af [0] [0, Suc 0] (demoLoop, demoBuffer)
                = Inr (?Lb, demoBuffer)" for am af
    by (simp add: sel p0 p1 noDeadline_def)
  have upt: "[0..<FrameBuffer.height demoBuffer] = [0]" "[0..<FrameBuffer.width demoBuffer] = [0, Suc 0]"
    by (simp_all add: demoBuffer_fields upt_rec)
  have fin: "?Lb\<lparr>temporal := updateCamera (temporal ?Lb) (Camera.position (camera (scene demoLoop)))
                                (Camera.rotation (camera (scene demoLoop)))\<rparr> = demoLoopAfter"
    by (simp add: demoLoopAfter_def demoLoop_def demoScene_def)
  have "renderFrameSingleThread noDeadline demoLoop demoBuffer =
          Inr (?Lb\<lparr>temporal := updateCamera (temporal ?Lb) (Camera.position (camera (scene demoLoop)))
                                (Camera.rotation (camera (scene demoLoop)))\<rparr>, demoBuffer)"
    unfolding renderFrameSingleThread_def Let_def upt
    using cc by (simp add: sel p0 p1 noDeadline_def)
  then show ?thesis by (simp only: fin)
qed

text \<open>
  Claim C4.  Take any state whose temporal cache is sized like the output buffer, with
  temporal reuse on and adaptive quality off, and a first frame that returns.  Then every
  pixel is valid after it; and a second frame on the buffer with its dirty flags cleared,
  for any scene with the same camera pose, no moving entity and no flickering light, returns
  the state and the buffer it was given: no cell changes and the count of sphere traces is
  the same.
\<close>

theorem static_second_frame_reuses:
  assumes wf: "wf_tc (temporal L)"
    and dw: "TemporalCache.width (temporal L) = FrameBuffer.width fb"
    and dh: "TemporalCache.height (temporal L) = FrameBuffer.height fb"
    and reuse: "useTemporalReuse L" and adaptive: "\<not> useAdaptiveQuality L"
    and first: "renderFrameSingleThread late L fb = Inr (L1, fb1)"
    and pos: "Camera.position (camera sc2) = Camera.position (camera (scene L))"
    and rot: "Camera.rotation (camera sc2) = Camera.rotation (camera (scene L))"
    and still: "\<not> hasAnyMoving sc2" and steady: "\<not> hasAnyFlicker sc2"
  shows
    "(\<forall>y < FrameBuffer.height fb. \<forall>x < FrameBuffer.width fb. isValid (temporal L1) x y) \<and>
     (\<exists>L2 fb2. renderFrameSingleThread late2 (L1\<lparr>scene := sc2\<rparr>) (clearDirtyFlags fb1) = Inr (L2, fb2) \<and>
        traces L2 = traces L1 \<and> temporal L2 = temporal L1 \<and>
        fb2 = clearDirtyFlags fb1 \<and>
        chars fb2 = chars fb1 \<and> colorR fb2 = colorR fb1 \<and> colorG fb2 = colorG fb1 \<and>
        colorB fb2 = colorB fb1 \<and> FrameBuffer.brightness fb2 = FrameBuffer.brightness fb1)"
proof -
  let ?p = "Camera.position (camera (scene L))" and ?r = "Camera.rotation (camera (scene L))"
  let ?W = "FrameBuffer.width fb" and ?H = "FrameBuffer.height fb"
  from first obtain L' where
    rows: "renderRows late (cameraChanged (temporal L) ?p ?r) (hasAnyMoving (scene L))
             (hasAnyFlicker (scene L)) [0..<?H] [0..<?W] (L, fb) = Inr (L', fb1)"
    and L1: "L1 = L'\<lparr>temporal := updateCamera (temporal L') ?p ?r\<rparr>"
    by (auto simp: renderFrameSingleThread_def Let_def split: sum.splits)
  have len: "length (valid (temporal L)) = ?W * ?H"
    using wf dw dh by (simp add: wf_tc_def Let_def)
  have bound: "\<forall>y \<in> set [0..<?H]. \<forall>x \<in> set [0..<?W].
                 y * TemporalCache.width (temporal (fst (L, fb))) + x
                   < length (valid (temporal (fst (L, fb))))"
    using cell_index_bound [of _ ?W _ ?H] by (simp add: dw len)
  have a0: "\<not> useAdaptiveQuality (fst (L, fb))"
    using adaptive by simp
  from renderRows_keeps_valid [OF rows a0 bound]
  have k: "keeps (L, fb) (L', fb1)"
    and v: "\<forall>y \<in> set [0..<?H]. \<forall>x \<in> set [0..<?W]. isValid (temporal L') x y"
    by simp_all
  have valid1: "\<forall>y < ?H. \<forall>x < ?W. isValid (temporal L1) x y"
    using v by (simp add: L1)
  let ?L = "L1\<lparr>scene := sc2\<rparr>"
  have w1: "FrameBuffer.width (clearDirtyFlags fb1) = ?W"
    and h1: "FrameBuffer.height (clearDirtyFlags fb1) = ?H"
    using k by (simp_all add: keeps_def clearDirtyFlags_def)
  have opts: "useTemporalReuse ?L" "\<not> useAdaptiveQuality ?L"
    using k reuse adaptive by (simp_all add: keeps_def L1)
  have sc: "scene ?L = sc2" by simp
  have cc: "\<not> cameraChanged (temporal ?L) (Camera.position (camera sc2)) (Camera.rotation (camera sc2))"
    by (simp add: L1 pos rot cameraChanged_after_update)
  have still': "\<not> hasAnyMoving (scene ?L)" using still by simp
  have v2: "\<forall>y \<in> set [0..<?H]. \<forall>x \<in> set [0..<?W]. isValid (temporal ?L) x y"
    using valid1 by simp
  have scan: "renderRows late2 False False False [0..<?H] [0..<?W] (?L, clearDirtyFlags fb1)
                = Inr (?L, clearDirtyFlags fb1)"
    by (rule renderRows_reuse [OF opts still' v2])
  have same: "?L\<lparr>temporal := updateCamera (temporal ?L) (Camera.position (camera sc2))
                                (Camera.rotation (camera sc2))\<rparr> = ?L"
    by (simp add: L1 pos rot updateCamera_idem)
  have "renderFrameSingleThread late2 ?L (clearDirtyFlags fb1) = Inr (?L, clearDirtyFlags fb1)"
    using cc still steady scan same
    by (simp add: renderFrameSingleThread_def Let_def w1 h1)
  then have "\<exists>L2 fb2. renderFrameSingleThread late2 ?L (clearDirtyFlags fb1) = Inr (L2, fb2) \<and>
        traces L2 = traces L1 \<and> temporal L2 = temporal L1 \<and>
        fb2 = clearDirtyFlags fb1 \<and>
        chars fb2 = chars fb1 \<and> colorR fb2 = colorR fb1 \<and> colorG fb2 = colorG fb1 \<and>
        colorB fb2 = colorB fb1 \<and> FrameBuffer.brightness fb2 = FrameBuffer.brightness fb1"
    by (simp add: clearDirtyFlags_def)
  with valid1 show ?thesis by blast
qed

theorem static_second_frame_reuses_witness:
  "wf_tc (temporal demoLoop) \<and>
   TemporalCache.width (temporal demoLoop) = FrameBuffer.width demoBuffer \<and>
   TemporalCache.height (temporal demoLoop) = FrameBuffer.height demoBuffer \<and>
   useTemporalReuse demoLoop \<and> \<not> useAdaptiveQuality demoLoop \<and>
   renderFrameSingleThread noDeadline demoLoop demoBuffer = Inr (demoLoopAfter, demoBuffer) \<and>
   traces demoLoopAfter = 2 \<and>
   \<not> hasAnyMoving (demoScene\<lparr>time := 1\<rparr>) \<and> \<not> hasAnyFlicker (demoScene\<lparr>time := 1\<rparr>) \<and>
   isValid (temporal demoLoopAfter) 0 0 \<and> isValid (temporal demoLoopAfter) 1 0 \<and>
   (\<exists>L2. renderFrameSingleThread noDeadline (demoLoopAfter\<lparr>scene := demoScene\<lparr>time := 1\<rparr>\<rparr>)
            (clearDirtyFlags demoBuffer) = Inr (L2, clearDirtyFlags demoBuffer) \<and>
         traces L2 = 2 \<and> temporal L2 = temporal demoLoopAfter)"
proof -
  let ?sc = "demoScene\<lparr>time := 1\<rparr>"
  have wf: "wf_tc (temporal demoLoop)"
    by (simp add: demoLoop_def wf_tc_def newTemporalCache_def)
  have dw: "TemporalCache.width (temporal demoLoop) = FrameBuffer.width demoBuffer"
    and dh: "TemporalCache.height (temporal demoLoop) = FrameBuffer.height demoBuffer"
    by (simp_all add: demoLoop_def newTemporalCache_def demoBuffer_fields)
  have reuse: "useTemporalReuse demoLoop" and adaptive: "\<not> useAdaptiveQuality demoLoop"
    by (simp_all add: demoLoop_def)
  have pos: "Camera.position (camera ?sc) = Camera.position (camera (scene demoLoop))"
    and rot: "Camera.rotation (camera ?sc) = Camera.rotation (camera (scene demoLoop))"
    by (simp_all add: demoLoop_def)
  have still: "\<not> hasAnyMoving ?sc"
    by (simp add: hasAnyMoving_def demoScene_def entityMoves_def unitSphere_def)
  have steady: "\<not> hasAnyFlicker ?sc"
    by (simp add: hasAnyFlicker_def demoScene_def)
  have tr: "traces demoLoopAfter = 2"
    by (simp add: demoLoopAfter_def)
  note T = static_second_frame_reuses [OF wf dw dh reuse adaptive demo_first_frame pos rot
             still steady, of noDeadline]
  have v: "\<forall>y < FrameBuffer.height demoBuffer. \<forall>x < FrameBuffer.width demoBuffer.
             isValid (temporal demoLoopAfter) x y"
    using T by (rule conjunct1)
  have v0: "isValid (temporal demoLoopAfter) 0 0" and v1: "isValid (temporal demoLoopAfter) 1 0"
    using v by (simp_all add: demoBuffer_fields)
  have "\<exists>L2 fb2. renderFrameSingleThread noDeadline (demoLoopAfter\<lparr>scene := ?sc\<rparr>)
            (clearDirtyFlags demoBuffer) = Inr (L2, fb2) \<and>
          traces L2 = traces demoLoopAfter \<and> temporal L2 = temporal demoLoopAfter \<and>
          fb2 = clearDirtyFlags demoBuffer \<and>
          chars fb2 = chars demoBuffer \<and> colorR fb2 = colorR demoBuffer \<and>
          colorG fb2 = colorG demoBuffer \<and> colorB fb2 = colorB demoBuffer \<and>
          FrameBuffer.brightness fb2 = FrameBuffer.brightness demoBuffer"
    using T by (rule conjunct2)
  then obtain L2 fb2 where
    r: "renderFrameSingleThread noDeadline (demoLoopAfter\<lparr>scene := ?sc\<rparr>)
            (clearDirtyFlags demoBuffer) = Inr (L2, fb2)"
    and t: "traces L2 = traces demoLoopAfter" and m: "temporal L2 = temporal demoLoopAfter"
    and f: "fb2 = clearDirtyFlags demoBuffer"
    by blast
  have ex: "\<exists>L2. renderFrameSingleThread noDeadline (demoLoopAfter\<lparr>scene := ?sc\<rparr>)
            (clearDirtyFlags demoBuffer) = Inr (L2, clearDirtyFlags demoBuffer) \<and>
         traces L2 = 2 \<and> temporal L2 = temporal demoLoopAfter"
    using r t m f tr by (intro exI [of _ L2]) simp
  show ?thesis
    using wf dw dh reuse adaptive demo_first_frame tr still steady v0 v1 ex
    by (intro conjI)
qed

end
